theory Spec2Isabelle
  imports Main "HOL-Library.AList" "HOL-Library.Multiset"
begin

section \<open>Text primitives of the validator scripts\<close>

text \<open>
  File contents are the values returned by Python's \<^verbatim>\<open>f.read()\<close> in text mode: decoded
  text with universal newlines, so the only line terminator left is the line feed.
  A character is a code point below 256; the classes \<^verbatim>\<open>\s\<close> and \<^verbatim>\<open>\w\<close> of Python's
  \<^verbatim>\<open>re\<close> on \<^verbatim>\<open>str\<close> patterns, \<^verbatim>\<open>str.strip\<close> and \<^verbatim>\<open>str.lower\<close> are written out on that
  range.
\<close>

definition nl :: char where
  "nl = CHR 0x0A"

definition is_space :: "char \<Rightarrow> bool" where
  "is_space c = (let n = (of_char c :: nat) in
     (9 \<le> n \<and> n \<le> 13) \<or> (28 \<le> n \<and> n \<le> 32) \<or> n = 133 \<or> n = 160)"

definition is_word :: "char \<Rightarrow> bool" where
  "is_word c = (let n = (of_char c :: nat) in
     (48 \<le> n \<and> n \<le> 57) \<or> (65 \<le> n \<and> n \<le> 90) \<or> n = 95 \<or> (97 \<le> n \<and> n \<le> 122)
     \<or> n = 170 \<or> n = 178 \<or> n = 179 \<or> n = 181 \<or> n = 185 \<or> n = 186
     \<or> (188 \<le> n \<and> n \<le> 190) \<or> (192 \<le> n \<and> n \<le> 214)
     \<or> (216 \<le> n \<and> n \<le> 246) \<or> (248 \<le> n \<and> n \<le> 255))"

definition lower_char :: "char \<Rightarrow> char" where
  "lower_char c = (let n = (of_char c :: nat) in
     if (65 \<le> n \<and> n \<le> 90) \<or> (192 \<le> n \<and> n \<le> 222 \<and> n \<noteq> 215)
     then char_of (n + 32) else c)"

definition lower :: "string \<Rightarrow> string" where
  "lower s = map lower_char s"

definition strip :: "string \<Rightarrow> string" where
  "strip s = rev (dropWhile is_space (rev (dropWhile is_space s)))"

fun startswith :: "string \<Rightarrow> string \<Rightarrow> bool" where
  "startswith s [] = True"
| "startswith [] (p # ps) = False"
| "startswith (x # xs) (p # ps) = (x = p \<and> startswith xs ps)"

definition endswith :: "string \<Rightarrow> string \<Rightarrow> bool" where
  "endswith s suf = startswith (rev s) (rev suf)"

text \<open>\<^verbatim>\<open>sub in s\<close> on strings.\<close>

fun contains :: "string \<Rightarrow> string \<Rightarrow> bool" where
  "contains sub [] = (sub = [])"
| "contains sub (x # xs) = (startswith (x # xs) sub \<or> contains sub xs)"

definition count_nl :: "string \<Rightarrow> nat" where
  "count_nl s = length (filter (\<lambda>c. c = nl) s)"

text \<open>\<^verbatim>\<open>f.readlines()\<close>: the lines of the text, each with its terminator.\<close>

fun readlines_acc :: "string \<Rightarrow> string \<Rightarrow> string list" where
  "readlines_acc acc [] = (if acc = [] then [] else [rev acc])"
| "readlines_acc acc (c # cs) =
     (if c = nl then rev (c # acc) # readlines_acc [] cs else readlines_acc (c # acc) cs)"

definition readlines :: "string \<Rightarrow> string list" where
  "readlines s = readlines_acc [] s"

fun join :: "string \<Rightarrow> string list \<Rightarrow> string" where
  "join sep [] = []"
| "join sep [x] = x"
| "join sep (x # y # ys) = x @ sep @ join sep (y # ys)"

section \<open>Backtracking regular expressions\<close>

text \<open>
  The scripts extract everything with Python's \<^verbatim>\<open>re\<close>. Its matcher is a backtracking
  one: alternatives are tried left to right, a greedy quantifier tries the longest
  repetition first and a lazy one the shortest. \<open>rm r st\<close> lists every way \<open>r\<close> can match
  at \<open>st\<close> in the order in which the backtracking matcher would try them, so the head of
  the list is the match Python reports. A state is the character before the position
  (for \<^verbatim>\<open>\b\<close>), the text from the position on, and the groups captured so far (the
  latest capture of a group first).
\<close>

datatype rx = Atom "char \<Rightarrow> bool" | Eps | Seq rx rx | Alt rx rx | Star rx | LazyStar rx
  | Group nat rx | WordB

type_synonym caps = "(nat \<times> string) list"
type_synonym mstate = "char option \<times> string \<times> caps"

definition word_opt :: "char option \<Rightarrow> bool" where
  "word_opt c = (case c of None \<Rightarrow> False | Some x \<Rightarrow> is_word x)"

definition next_char :: "string \<Rightarrow> char option" where
  "next_char s = (case s of [] \<Rightarrow> None | x # _ \<Rightarrow> Some x)"

function rm :: "rx \<Rightarrow> mstate \<Rightarrow> mstate list" where
  "rm (Atom p) st = (case fst (snd st) of [] \<Rightarrow> []
       | x # xs \<Rightarrow> if p x then [(Some x, xs, snd (snd st))] else [])"
| "rm Eps st = [st]"
| "rm (Seq a b) st = concat (map (rm b) (rm a st))"
| "rm (Alt a b) st = rm a st @ rm b st"
| "rm (Star a) st =
     concat (map (\<lambda>t. if length (fst (snd t)) < length (fst (snd st)) then rm (Star a) t else [])
                 (rm a st)) @ [st]"
| "rm (LazyStar a) st =
     st # concat (map (\<lambda>t. if length (fst (snd t)) < length (fst (snd st))
                             then rm (LazyStar a) t else [])
                      (rm a st))"
| "rm (Group n a) st =
     map (\<lambda>t. (fst t, fst (snd t),
                (n, take (length (fst (snd st)) - length (fst (snd t))) (fst (snd st))) # snd (snd t)))
         (rm a st)"
| "rm WordB st = (if word_opt (fst st) \<noteq> word_opt (next_char (fst (snd st))) then [st] else [])"
  by pat_completeness auto
termination
  by (relation "measure size <*lex*> measure (\<lambda>st. length (fst (snd st)))") auto

definition rx_lit :: "string \<Rightarrow> rx" where
  "rx_lit s = foldr (\<lambda>c r. Seq (Atom (\<lambda>x. x = c)) r) s Eps"

definition rx_plus :: "rx \<Rightarrow> rx" where
  "rx_plus r = Seq r (Star r)"

definition rx_opt :: "rx \<Rightarrow> rx" where
  "rx_opt r = Alt r Eps"

fun rx_seq :: "rx list \<Rightarrow> rx" where
  "rx_seq [] = Eps"
| "rx_seq [r] = r"
| "rx_seq (r # rs) = Seq r (rx_seq rs)"

definition ws :: rx where
  "ws = Atom is_space"

definition wd :: rx where
  "wd = Atom is_word"

definition none_of :: "string \<Rightarrow> rx" where
  "none_of cs = Atom (\<lambda>c. c \<notin> set cs)"

text \<open>A match object: where the match starts, and the state it ends in.\<close>

record rmatch =
  m_start :: nat
  m_rest :: string
  m_caps :: caps

definition mk_match :: "nat \<Rightarrow> mstate \<Rightarrow> rmatch" where
  "mk_match i t = \<lparr>m_start = i, m_rest = fst (snd t), m_caps = snd (snd t)\<rparr>"

text \<open>\<^verbatim>\<open>m.group(n)\<close>: \<open>None\<close> when the group took no part in the match.\<close>

definition group :: "rmatch \<Rightarrow> nat \<Rightarrow> string option" where
  "group m n = map_of (m_caps m) n"

definition group_str :: "rmatch \<Rightarrow> nat \<Rightarrow> string" where
  "group_str m n = (case group m n of None \<Rightarrow> [] | Some s \<Rightarrow> s)"

text \<open>\<^verbatim>\<open>re.match\<close>: a match at the start of the text only.\<close>

definition re_match :: "rx \<Rightarrow> string \<Rightarrow> rmatch option" where
  "re_match r s = (case rm r (None, s, []) of [] \<Rightarrow> None | t # _ \<Rightarrow> Some (mk_match 0 t))"

text \<open>\<^verbatim>\<open>re.search\<close>: the match at the leftmost position that has one.\<close>

fun re_search_from :: "rx \<Rightarrow> nat \<Rightarrow> char option \<Rightarrow> string \<Rightarrow> rmatch option" where
  "re_search_from r i pv [] =
     (case rm r (pv, [], []) of [] \<Rightarrow> None | t # _ \<Rightarrow> Some (mk_match i t))"
| "re_search_from r i pv (x # xs) =
     (case rm r (pv, x # xs, []) of
        [] \<Rightarrow> re_search_from r (Suc i) (Some x) xs
      | t # _ \<Rightarrow> Some (mk_match i t))"

definition re_search :: "rx \<Rightarrow> string \<Rightarrow> rmatch option" where
  "re_search r s = re_search_from r 0 None s"

text \<open>
  \<^verbatim>\<open>re.finditer\<close>: the successive non-overlapping matches, left to right. Every pattern
  of the scripts consumes at least one character; after an empty match the scan moves on
  by one character.
\<close>

function re_finditer_from :: "rx \<Rightarrow> nat \<Rightarrow> char option \<Rightarrow> string \<Rightarrow> rmatch list" where
  "re_finditer_from r i pv s =
     (case rm r (pv, s, []) of
        [] \<Rightarrow> (case s of [] \<Rightarrow> [] | x # xs \<Rightarrow> re_finditer_from r (Suc i) (Some x) xs)
      | t # _ \<Rightarrow> mk_match i t #
          (if length (fst (snd t)) < length s
           then re_finditer_from r (i + (length s - length (fst (snd t)))) (fst t) (fst (snd t))
           else (case s of [] \<Rightarrow> [] | x # xs \<Rightarrow> re_finditer_from r (Suc i) (Some x) xs)))"
  by pat_completeness auto
termination
  by (relation "measure (\<lambda>(r, i, pv, s). length s)") auto

definition re_finditer :: "rx \<Rightarrow> string \<Rightarrow> rmatch list" where
  "re_finditer r s = re_finditer_from r 0 None s"

text \<open>\<^verbatim>\<open>re.sub(r, '', s)\<close>: the text with every match removed.\<close>

function re_sub_empty_from :: "rx \<Rightarrow> char option \<Rightarrow> string \<Rightarrow> string" where
  "re_sub_empty_from r pv s =
     (case rm r (pv, s, []) of
        [] \<Rightarrow> (case s of [] \<Rightarrow> [] | x # xs \<Rightarrow> x # re_sub_empty_from r (Some x) xs)
      | t # _ \<Rightarrow>
          (if length (fst (snd t)) < length s
           then re_sub_empty_from r (fst t) (fst (snd t))
           else (case s of [] \<Rightarrow> [] | x # xs \<Rightarrow> x # re_sub_empty_from r (Some x) xs)))"
  by pat_completeness auto
termination
  by (relation "measure (\<lambda>(r, pv, s). length s)") auto

definition re_sub_empty :: "rx \<Rightarrow> string \<Rightarrow> string" where
  "re_sub_empty r s = re_sub_empty_from r None s"

section \<open>The patterns of \<^verbatim>\<open>validate_references.py\<close>\<close>

definition word_or_dot :: rx where
  "word_or_dot = Atom (\<lambda>c. is_word c \<or> c = CHR ''.'')"

text \<open>\<^verbatim>\<open>package\s+([\w.]+);\<close>\<close>

definition rx_package :: rx where
  "rx_package = rx_seq [rx_lit ''package'', rx_plus ws, Group 1 (rx_plus word_or_dot), rx_lit '';'']"

text \<open>\<^verbatim>\<open>(public\s+)?(class|interface|enum)\s+(\w+)\<close>\<close>

definition rx_class :: rx where
  "rx_class = rx_seq [rx_opt (Group 1 (Seq (rx_lit ''public'') (rx_plus ws))),
     Group 2 (Alt (rx_lit ''class'') (Alt (rx_lit ''interface'') (rx_lit ''enum''))),
     rx_plus ws, Group 3 (rx_plus wd)]"

text \<open>\<^verbatim>\<open>@Component\b\<close>, \<^verbatim>\<open>@Service\b\<close>, \<^verbatim>\<open>@Repository\b\<close>\<close>

definition rx_annotation :: "string \<Rightarrow> rx" where
  "rx_annotation name = Seq (rx_lit (CHR ''@'' # name)) WordB"

text \<open>\<^verbatim>\<open>@FeignClient\s*\([^)]*name\s*=\s*"([^"]+)"[^)]*\)\<close>\<close>

definition rx_feign :: rx where
  "rx_feign = rx_seq [rx_lit ''@FeignClient'', Star ws, rx_lit ''('', Star (none_of '')''),
     rx_lit ''name'', Star ws, rx_lit ''='', Star ws, rx_lit [CHR 0x22],
     Group 1 (rx_plus (none_of [CHR 0x22])), rx_lit [CHR 0x22], Star (none_of '')''), rx_lit '')'']"

text \<open>\<^verbatim>\<open>(public|protected|private)?\s+[\w<>\[\],\s]+\s+(\w+)\s*\([^)]*\)\<close>\<close>

definition rx_method :: rx where
  "rx_method = rx_seq [
     rx_opt (Group 1 (Alt (rx_lit ''public'') (Alt (rx_lit ''protected'') (rx_lit ''private'')))),
     rx_plus ws,
     rx_plus (Atom (\<lambda>c. is_word c \<or> c \<in> set ''<>[],'' \<or> is_space c)),
     rx_plus ws, Group 2 (rx_plus wd), Star ws, rx_lit ''('', Star (none_of '')''), rx_lit '')'']"

text \<open>\<^verbatim>\<open>import\s+([\w.]+);\<close>\<close>

definition rx_import :: rx where
  "rx_import = rx_seq [rx_lit ''import'', rx_plus ws, Group 1 (rx_plus word_or_dot), rx_lit '';'']"

text \<open>The call-site patterns, such as \<^verbatim>\<open>ledgerService\.(\w+)\(\<close>, by their variable name.\<close>

definition rx_call :: "string \<Rightarrow> rx" where
  "rx_call var = rx_seq [rx_lit var, rx_lit ''.'', Group 1 (rx_plus wd), rx_lit ''('']"

text \<open>\<^verbatim>\<open>@(Autowired|Inject)\s+(?:private|protected|public)?\s+([\w<>.,\s]+)\s+(\w+);\<close>\<close>

definition rx_autowired :: rx where
  "rx_autowired = rx_seq [rx_lit ''@'', Group 1 (Alt (rx_lit ''Autowired'') (rx_lit ''Inject'')),
     rx_plus ws,
     rx_opt (Alt (rx_lit ''private'') (Alt (rx_lit ''protected'') (rx_lit ''public''))),
     rx_plus ws,
     Group 2 (rx_plus (Atom (\<lambda>c. is_word c \<or> c \<in> set ''<>.,'' \<or> is_space c))),
     rx_plus ws, Group 3 (rx_plus wd), rx_lit '';'']"

text \<open>\<^verbatim>\<open><.*>\<close>; the dot matches anything but a line feed.\<close>

definition rx_generic :: rx where
  "rx_generic = rx_seq [rx_lit ''<'', Star (Atom (\<lambda>c. c \<noteq> nl)), rx_lit ''>'']"

text \<open>
  \<^verbatim>\<open>rf'import\s+([\w.]+\.{re.escape(base_type)});'\<close>: the escaped type matches itself,
  character by character.
\<close>

definition rx_import_of :: "string \<Rightarrow> rx" where
  "rx_import_of base_type = rx_seq [rx_lit ''import'', rx_plus ws,
     Group 1 (rx_seq [rx_plus word_or_dot, rx_lit ''.'', rx_lit base_type]), rx_lit '';'']"

text \<open>\<^verbatim>\<open>fallback\s*=\s*(\w+)\.class\<close>\<close>

definition rx_fallback :: rx where
  "rx_fallback = rx_seq [rx_lit ''fallback'', Star ws, rx_lit ''='', Star ws,
     Group 1 (rx_plus wd), rx_lit ''.class'']"

text \<open>\<^verbatim>\<open>/services/([^/]+)/\<close>\<close>

definition rx_service :: rx where
  "rx_service = rx_seq [rx_lit ''/services/'', Group 1 (rx_plus (none_of ''/'')), rx_lit ''/'']"

section \<open>The data of \<^verbatim>\<open>ReferenceValidator\<close>\<close>

record BrokenReference =
  source_file :: string
  line_number :: nat
  reference_type :: string
  target :: string
  expected :: string
  actual :: string
  severity :: string
  impact :: string
  recommended_fix :: string

record ValidationReport =
  broken_imports :: "BrokenReference list"
  broken_method_calls :: "BrokenReference list"
  missing_beans :: "BrokenReference list"
  broken_feign_clients :: "BrokenReference list"
  circular_dependencies :: "(string \<times> string) list"
  deprecated_usage :: "BrokenReference list"

record feign_info =
  file_path :: string
  service_name :: string
  content :: string

text \<open>
  A Python \<^verbatim>\<open>dict\<close> is an association list in insertion order: \<open>AList.update\<close> replaces
  the value of a key where it stands and appends a new key, as assignment does. A Python
  \<^verbatim>\<open>set\<close> of strings is a list without duplicates; the order in which Python iterates
  over a set is not fixed by the language, so every iteration over a set goes through a
  parameter \<open>so\<close> that reorders its elements.
\<close>

record ReferenceValidator =
  report :: ValidationReport
  class_registry :: "(string \<times> string) list"
  public_classes :: "string list"
  component_classes :: "string list"
  service_classes :: "string list"
  repository_classes :: "string list"
  feign_clients :: "(string \<times> feign_info) list"
  class_methods :: "(string \<times> string list) list"

text \<open>
  One entry of the tree under \<^verbatim>\<open>services_path\<close>: its path, and its text when
  \<^verbatim>\<open>open\<close> and \<^verbatim>\<open>read\<close> succeed (\<open>None\<close> when they raise, which every phase catches by
  skipping the file).
\<close>

record java_file =
  path :: string
  contents :: "string option"

definition has_key :: "('k \<times> 'v) list \<Rightarrow> 'k \<Rightarrow> bool" where
  "has_key d k = (map_of d k \<noteq> None)"

definition set_add :: "'a \<Rightarrow> 'a list \<Rightarrow> 'a list" where
  "set_add x xs = (if x \<in> set xs then xs else xs @ [x])"

text \<open>\<^verbatim>\<open>d.get(k, set())\<close>\<close>

definition get_set :: "('k \<times> 'a list) list \<Rightarrow> 'k \<Rightarrow> 'a list" where
  "get_set d k = (case map_of d k of None \<Rightarrow> [] | Some xs \<Rightarrow> xs)"

text \<open>\<^verbatim>\<open>d[k].add(x)\<close> on a \<^verbatim>\<open>defaultdict(set)\<close>\<close>

definition dict_set_add :: "'k \<Rightarrow> 'a \<Rightarrow> ('k \<times> 'a list) list \<Rightarrow> ('k \<times> 'a list) list" where
  "dict_set_add k x d = AList.update k (set_add x (get_set d k)) d"

definition truthy :: "string option \<Rightarrow> bool" where
  "truthy g = (case g of None \<Rightarrow> False | Some s \<Rightarrow> s \<noteq> [])"

definition empty_report :: ValidationReport where
  "empty_report = \<lparr>broken_imports = [], broken_method_calls = [], missing_beans = [],
     broken_feign_clients = [], circular_dependencies = [], deprecated_usage = []\<rparr>"

definition init_validator :: ReferenceValidator where
  "init_validator = \<lparr>report = empty_report, class_registry = [], public_classes = [],
     component_classes = [], service_classes = [], repository_classes = [],
     feign_clients = [], class_methods = []\<rparr>"

text \<open>\<^verbatim>\<open>services_path.rglob("*.java")\<close>: the entries whose name ends in \<^verbatim>\<open>.java\<close>, in the
  order of the walk. No other condition is put on the path.\<close>

definition rglob_java :: "java_file list \<Rightarrow> java_file list" where
  "rglob_java tree = filter (\<lambda>f. endswith (path f) ''.java'') tree"

section \<open>Phase 0: \<^verbatim>\<open>scan_all_classes\<close>\<close>

definition add_if :: "bool \<Rightarrow> 'a \<Rightarrow> 'a list \<Rightarrow> 'a list" where
  "add_if b x xs = (if b then set_add x xs else xs)"

definition method_denylist :: "string list" where
  "method_denylist = [''class'', ''if'', ''for'', ''while'', ''switch'']"

definition scan_methods :: "string \<Rightarrow> string \<Rightarrow> (string \<times> string list) list
    \<Rightarrow> (string \<times> string list) list" where
  "scan_methods fully_qualified text cm =
     fold (\<lambda>method_match d. let method_name = group_str method_match 2 in
             if method_name \<notin> set method_denylist then dict_set_add fully_qualified method_name d
             else d)
          (re_finditer rx_method text) cm"

definition scan_feign :: "string \<Rightarrow> string \<Rightarrow> string \<Rightarrow> (string \<times> feign_info) list
    \<Rightarrow> (string \<times> feign_info) list" where
  "scan_feign fully_qualified java_file text fc =
     (case re_search rx_feign text of
        None \<Rightarrow> fc
      | Some feign_match \<Rightarrow>
          AList.update fully_qualified
            \<lparr>file_path = java_file, service_name = group_str feign_match 1, content = text\<rparr> fc)"

definition scan_file :: "java_file \<Rightarrow> ReferenceValidator \<Rightarrow> ReferenceValidator" where
  "scan_file f v =
     (case contents f of
        None \<Rightarrow> v
      | Some text \<Rightarrow>
         (case re_search rx_package text of
            None \<Rightarrow> v
          | Some package_match \<Rightarrow>
             (case re_search rx_class text of
                None \<Rightarrow> v
              | Some class_match \<Rightarrow>
                  (let fully_qualified = group_str package_match 1 @ ''.'' @ group_str class_match 3
                   in v\<lparr>class_registry := AList.update fully_qualified (path f) (class_registry v),
                        public_classes :=
                          add_if (truthy (group class_match 1)) fully_qualified (public_classes v),
                        component_classes :=
                          add_if (re_search (rx_annotation ''Component'') text \<noteq> None)
                            fully_qualified (component_classes v),
                        service_classes :=
                          add_if (re_search (rx_annotation ''Service'') text \<noteq> None)
                            fully_qualified (service_classes v),
                        repository_classes :=
                          add_if (re_search (rx_annotation ''Repository'') text \<noteq> None)
                            fully_qualified (repository_classes v),
                        feign_clients := scan_feign fully_qualified (path f) text (feign_clients v),
                        class_methods := scan_methods fully_qualified text (class_methods v)\<rparr>))))"

definition scan_all_classes :: "java_file list \<Rightarrow> ReferenceValidator \<Rightarrow> ReferenceValidator" where
  "scan_all_classes tree v = fold scan_file (rglob_java tree) v"

section \<open>Phase 1: \<^verbatim>\<open>validate_imports\<close>\<close>

definition internal :: "string \<Rightarrow> bool" where
  "internal name = contains ''com.waqiti'' name"

definition missing_import :: "string \<Rightarrow> nat \<Rightarrow> string \<Rightarrow> BrokenReference" where
  "missing_import java_file line_num imported_class =
     \<lparr>source_file = java_file, line_number = line_num, reference_type = ''IMPORT'',
      target = imported_class,
      expected = ''Class '' @ imported_class @ '' should exist'',
      actual = ''Class not found in codebase'',
      severity = ''ERROR'', impact = ''Compilation will fail'',
      recommended_fix = ''Remove import or create class '' @ imported_class\<rparr>"

definition non_public_import :: "string \<Rightarrow> nat \<Rightarrow> string \<Rightarrow> BrokenReference" where
  "non_public_import java_file line_num imported_class =
     \<lparr>source_file = java_file, line_number = line_num, reference_type = ''IMPORT'',
      target = imported_class,
      expected = ''Class '' @ imported_class @ '' should be public'',
      actual = ''Class is not public'',
      severity = ''WARNING'', impact = ''May cause compilation issues'',
      recommended_fix = ''Make class public or adjust visibility''\<rparr>"

definition check_import_line :: "ReferenceValidator \<Rightarrow> string \<Rightarrow> nat \<times> string
    \<Rightarrow> BrokenReference list" where
  "check_import_line v java_file nline =
     (case re_match rx_import (strip (snd nline)) of
        None \<Rightarrow> []
      | Some import_match \<Rightarrow>
          (let imported_class = group_str import_match 1 in
           if internal imported_class then
             (if \<not> has_key (class_registry v) imported_class then
                (if \<not> endswith (strip (snd nline)) ''*;''
                 then [missing_import java_file (fst nline) imported_class] else [])
              else if imported_class \<notin> set (public_classes v)
                then [non_public_import java_file (fst nline) imported_class]
              else [])
           else []))"

definition imports_of_file :: "ReferenceValidator \<Rightarrow> java_file \<Rightarrow> BrokenReference list" where
  "imports_of_file v f =
     (case contents f of
        None \<Rightarrow> []
      | Some text \<Rightarrow> concat (map (check_import_line v (path f)) (enumerate 1 (readlines text))))"

text \<open>
  Each checking phase reads the symbol table only and appends its findings to one list
  of the report, file by file and match by match; the appended findings are the
  concatenation, in that order, of the findings of each site.
\<close>

definition validate_imports :: "java_file list \<Rightarrow> ReferenceValidator \<Rightarrow> ReferenceValidator" where
  "validate_imports tree v =
     v\<lparr>report := (report v)\<lparr>broken_imports :=
          broken_imports (report v) @ concat (map (imports_of_file v) (rglob_java tree))\<rparr>\<rparr>"

section \<open>Phase 2: \<^verbatim>\<open>validate_method_calls\<close>\<close>

text \<open>The catalogue: the variable name of each pattern and its expected class.\<close>

definition service_patterns :: "(string \<times> string) list" where
  "service_patterns = [
     (''ledgerService'', ''com.waqiti.ledger.service.LedgerService''),
     (''walletService'', ''com.waqiti.wallet.service.WalletService''),
     (''fraudDetectionService'', ''com.waqiti.fraud.service.FraudDetectionService''),
     (''paymentService'', ''com.waqiti.payment.service.PaymentService''),
     (''userService'', ''com.waqiti.user.service.UserService''),
     (''accountService'', ''com.waqiti.account.service.AccountService''),
     (''transactionService'', ''com.waqiti.transaction.service.TransactionService'')]"

definition broken_call :: "(string list \<Rightarrow> string list) \<Rightarrow> ReferenceValidator \<Rightarrow> string \<Rightarrow> nat
    \<Rightarrow> string \<Rightarrow> string \<Rightarrow> BrokenReference" where
  "broken_call so v java_file line_num service_class method_name =
     \<lparr>source_file = java_file, line_number = line_num, reference_type = ''METHOD_CALL'',
      target = service_class @ ''.'' @ method_name,
      expected = ''Method '' @ method_name @ '' should exist in '' @ service_class,
      actual = ''Method not found. Available methods: ''
        @ join '', '' (take 5 (so (get_set (class_methods v) service_class))) @ ''...'',
      severity = ''ERROR'', impact = ''Runtime error or compilation failure'',
      recommended_fix = ''Implement '' @ method_name @ '' in '' @ service_class
        @ '' or fix method name''\<rparr>"

definition check_call :: "(string list \<Rightarrow> string list) \<Rightarrow> ReferenceValidator \<Rightarrow> string \<Rightarrow> string
    \<Rightarrow> string \<Rightarrow> rmatch \<Rightarrow> BrokenReference list" where
  "check_call so v java_file text service_class m =
     (let method_name = group_str m 1 in
      if has_key (class_registry v) service_class then
        (if method_name \<notin> set (get_set (class_methods v) service_class)
         then [broken_call so v java_file (count_nl (take (m_start m) text) + 1)
                 service_class method_name]
         else [])
      else [])"

definition calls_of_pattern :: "(string list \<Rightarrow> string list) \<Rightarrow> ReferenceValidator \<Rightarrow> string
    \<Rightarrow> string \<Rightarrow> string \<times> string \<Rightarrow> BrokenReference list" where
  "calls_of_pattern so v java_file text pc =
     concat (map (check_call so v java_file text (snd pc)) (re_finditer (rx_call (fst pc)) text))"

definition calls_of_file :: "(string list \<Rightarrow> string list) \<Rightarrow> ReferenceValidator \<Rightarrow> java_file
    \<Rightarrow> BrokenReference list" where
  "calls_of_file so v f =
     (case contents f of
        None \<Rightarrow> []
      | Some text \<Rightarrow> concat (map (calls_of_pattern so v (path f) text) service_patterns))"

definition validate_method_calls :: "(string list \<Rightarrow> string list) \<Rightarrow> java_file list
    \<Rightarrow> ReferenceValidator \<Rightarrow> ReferenceValidator" where
  "validate_method_calls so tree v =
     v\<lparr>report := (report v)\<lparr>broken_method_calls :=
          broken_method_calls (report v) @ concat (map (calls_of_file so v) (rglob_java tree))\<rparr>\<rparr>"

section \<open>Phase 3: \<^verbatim>\<open>validate_spring_beans\<close>\<close>

text \<open>The type an injection site resolves to: generics erased, then looked up among the
  file's own imports unless it is already written with the internal prefix.\<close>

definition resolve_base_type :: "string \<Rightarrow> rmatch \<Rightarrow> string" where
  "resolve_base_type text m =
     (let field_type = strip (group_str m 2);
          base_type = strip (re_sub_empty rx_generic field_type)
      in if \<not> startswith base_type ''com.waqiti'' then
           (case re_search (rx_import_of base_type) text of
              Some import_match \<Rightarrow> group_str import_match 1
            | None \<Rightarrow> base_type)
         else base_type)"

definition missing_bean_class :: "string \<Rightarrow> nat \<Rightarrow> string \<Rightarrow> BrokenReference" where
  "missing_bean_class java_file line_num base_type =
     \<lparr>source_file = java_file, line_number = line_num, reference_type = ''SPRING_BEAN'',
      target = base_type,
      expected = ''Bean '' @ base_type @ '' should exist'',
      actual = ''Class not found'',
      severity = ''ERROR'', impact = ''Application startup will fail'',
      recommended_fix = ''Create class '' @ base_type @ '' or fix type''\<rparr>"

definition missing_bean_annotation :: "string \<Rightarrow> nat \<Rightarrow> string \<Rightarrow> BrokenReference" where
  "missing_bean_annotation java_file line_num base_type =
     \<lparr>source_file = java_file, line_number = line_num, reference_type = ''SPRING_BEAN'',
      target = base_type,
      expected = ''Bean '' @ base_type
        @ '' should be annotated with @Component/@Service/@Repository'',
      actual = ''Missing Spring annotation'',
      severity = ''ERROR'', impact = ''Bean not found exception at startup'',
      recommended_fix = ''Add @Service or @Component to '' @ base_type\<rparr>"

definition check_bean :: "ReferenceValidator \<Rightarrow> string \<Rightarrow> string \<Rightarrow> rmatch
    \<Rightarrow> BrokenReference list" where
  "check_bean v java_file text m =
     (let base_type = resolve_base_type text m in
      if internal base_type then
        (if \<not> has_key (class_registry v) base_type
         then [missing_bean_class java_file (count_nl (take (m_start m) text) + 1) base_type]
         else if base_type \<notin> set (component_classes v) \<and>
                 base_type \<notin> set (service_classes v) \<and>
                 base_type \<notin> set (repository_classes v)
         then [missing_bean_annotation java_file (count_nl (take (m_start m) text) + 1) base_type]
         else [])
      else [])"

definition beans_of_file :: "ReferenceValidator \<Rightarrow> java_file \<Rightarrow> BrokenReference list" where
  "beans_of_file v f =
     (case contents f of
        None \<Rightarrow> []
      | Some text \<Rightarrow> concat (map (check_bean v (path f) text) (re_finditer rx_autowired text)))"

definition validate_spring_beans :: "java_file list \<Rightarrow> ReferenceValidator \<Rightarrow> ReferenceValidator" where
  "validate_spring_beans tree v =
     v\<lparr>report := (report v)\<lparr>missing_beans :=
          missing_beans (report v) @ concat (map (beans_of_file v) (rglob_java tree))\<rparr>\<rparr>"

section \<open>Phase 4: \<^verbatim>\<open>validate_feign_clients\<close>\<close>

definition missing_feign_fallback :: "string \<Rightarrow> string \<Rightarrow> BrokenReference" where
  "missing_feign_fallback fpath fallback_class =
     \<lparr>source_file = fpath, line_number = 1, reference_type = ''FEIGN_FALLBACK'',
      target = fallback_class,
      expected = ''Fallback class '' @ fallback_class @ '' should exist'',
      actual = ''Fallback class not found'',
      severity = ''ERROR'', impact = ''Circuit breaker will not work'',
      recommended_fix = ''Create fallback class '' @ fallback_class\<rparr>"

definition feign_fallback_not_component :: "string \<Rightarrow> string \<Rightarrow> BrokenReference" where
  "feign_fallback_not_component fpath fallback_class =
     \<lparr>source_file = fpath, line_number = 1, reference_type = ''FEIGN_FALLBACK'',
      target = fallback_class,
      expected = ''Fallback class '' @ fallback_class @ '' should be @Component'',
      actual = ''Missing @Component annotation'',
      severity = ''ERROR'', impact = ''Fallback will not be registered'',
      recommended_fix = ''Add @Component to '' @ fallback_class\<rparr>"

text \<open>The first key of the registry, in insertion order, that ends with a dot and the
  fallback's simple name.\<close>

definition find_fallback_fqn :: "(string \<times> string) list \<Rightarrow> string \<Rightarrow> string option" where
  "find_fallback_fqn registry fallback_class =
     find (\<lambda>cls. endswith cls (''.'' @ fallback_class)) (map fst registry)"

definition check_feign :: "ReferenceValidator \<Rightarrow> string \<times> feign_info \<Rightarrow> BrokenReference list" where
  "check_feign v client =
     (case re_search rx_fallback (content (snd client)) of
        None \<Rightarrow> []
      | Some fallback_match \<Rightarrow>
          (let fallback_class = group_str fallback_match 1 in
           case find_fallback_fqn (class_registry v) fallback_class of
             None \<Rightarrow> [missing_feign_fallback (file_path (snd client)) fallback_class]
           | Some fallback_fqn \<Rightarrow>
               if fallback_fqn = []
               then [missing_feign_fallback (file_path (snd client)) fallback_class]
               else if fallback_fqn \<notin> set (component_classes v)
               then [feign_fallback_not_component (file_path (snd client)) fallback_class]
               else []))"

definition validate_feign_clients :: "ReferenceValidator \<Rightarrow> ReferenceValidator" where
  "validate_feign_clients v =
     v\<lparr>report := (report v)\<lparr>broken_feign_clients :=
          broken_feign_clients (report v) @ concat (map (check_feign v) (feign_clients v))\<rparr>\<rparr>"

section \<open>\<^verbatim>\<open>detect_circular_dependencies\<close>\<close>

text \<open>The file's own class: \<^verbatim>\<open>f"{package_match.group(1)}.{class_match.group(3)}"\<close>, when
  both patterns are found.\<close>

definition current_fqn :: "string \<Rightarrow> string option" where
  "current_fqn text =
     (case re_search rx_package text of
        None \<Rightarrow> None
      | Some package_match \<Rightarrow>
         (case re_search rx_class text of
            None \<Rightarrow> None
          | Some class_match \<Rightarrow>
              Some (group_str package_match 1 @ ''.'' @ group_str class_match 3)))"

text \<open>The names of \<^verbatim>\<open>re.finditer(r'import\s+([\w.]+);', content)\<close>, in order.\<close>

definition imported_names :: "string \<Rightarrow> string list" where
  "imported_names text = map (\<lambda>import_match. group_str import_match 1) (re_finditer rx_import text)"

definition add_import :: "ReferenceValidator \<Rightarrow> string \<Rightarrow> string \<Rightarrow> (string \<times> string list) list
    \<Rightarrow> (string \<times> string list) list" where
  "add_import v fqn imported dependencies =
     (if internal imported \<and> has_key (class_registry v) imported
      then dict_set_add fqn imported dependencies
      else dependencies)"

definition add_file_dependencies :: "ReferenceValidator \<Rightarrow> java_file \<Rightarrow> (string \<times> string list) list
    \<Rightarrow> (string \<times> string list) list" where
  "add_file_dependencies v f dependencies =
     (case contents f of
        None \<Rightarrow> dependencies
      | Some text \<Rightarrow>
         (case current_fqn text of
            None \<Rightarrow> dependencies
          | Some fqn \<Rightarrow> fold (add_import v fqn) (imported_names text) dependencies))"

definition build_dependencies :: "ReferenceValidator \<Rightarrow> java_file list
    \<Rightarrow> (string \<times> string list) list" where
  "build_dependencies v tree = fold (add_file_dependencies v) (rglob_java tree) []"

text \<open>Simple cycle detection (A -> B -> A).\<close>

definition cycles_of :: "(string list \<Rightarrow> string list) \<Rightarrow> (string \<times> string list) list
    \<Rightarrow> string \<times> string list \<Rightarrow> (string \<times> string) list" where
  "cycles_of so dependencies item =
     concat (map (\<lambda>cls_b. if fst item \<in> set (get_set dependencies cls_b)
                           then [(fst item, cls_b)] else [])
                 (so (snd item)))"

definition cycle_pairs :: "(string list \<Rightarrow> string list) \<Rightarrow> (string \<times> string list) list
    \<Rightarrow> (string \<times> string) list" where
  "cycle_pairs so dependencies = concat (map (cycles_of so dependencies) dependencies)"

definition detect_circular_dependencies :: "(string list \<Rightarrow> string list) \<Rightarrow> java_file list
    \<Rightarrow> ReferenceValidator \<Rightarrow> ReferenceValidator" where
  "detect_circular_dependencies so tree v =
     v\<lparr>report := (report v)\<lparr>circular_dependencies :=
          circular_dependencies (report v) @ cycle_pairs so (build_dependencies v tree)\<rparr>\<rparr>"

section \<open>\<^verbatim>\<open>generate_report\<close>\<close>

record issue_json =
  j_source :: string
  j_line :: nat
  j_type :: string
  j_target :: string
  j_expected :: string
  j_actual :: string
  j_impact :: string
  j_fix :: string

record summary_json =
  total_issues :: nat
  critical :: nat
  errors :: nat
  warnings :: nat
  circular_dependency_count :: nat
  services_affected_count :: nat
  classes_scanned :: nat

record category_json =
  n_broken_imports :: nat
  n_broken_method_calls :: nat
  n_missing_beans :: nat
  n_broken_feign_clients :: nat

record report_json =
  summary :: summary_json
  by_category :: category_json
  critical_issues :: "issue_json list"
  error_issues :: "issue_json list"
  warning_issues :: "issue_json list"
  circular_pairs :: "(string \<times> string) list"
  services_affected :: "(string \<times> nat) list"

definition to_json :: "BrokenReference \<Rightarrow> issue_json" where
  "to_json issue = \<lparr>j_source = source_file issue, j_line = line_number issue,
     j_type = reference_type issue, j_target = target issue, j_expected = expected issue,
     j_actual = actual issue, j_impact = impact issue, j_fix = recommended_fix issue\<rparr>"

definition mentions_failure :: "BrokenReference \<Rightarrow> bool" where
  "mentions_failure issue =
     (contains ''startup'' (lower (impact issue)) \<or> contains ''compilation'' (lower (impact issue)))"

text \<open>The three tiers \<open>(critical, errors, warnings)\<close>, one issue at a time.\<close>

definition classify :: "BrokenReference
    \<Rightarrow> BrokenReference list \<times> BrokenReference list \<times> BrokenReference list
    \<Rightarrow> BrokenReference list \<times> BrokenReference list \<times> BrokenReference list" where
  "classify issue tiers =
     (if severity issue = ''ERROR'' then
        (if mentions_failure issue
         then (fst tiers @ [issue], fst (snd tiers), snd (snd tiers))
         else (fst tiers, fst (snd tiers) @ [issue], snd (snd tiers)))
      else (fst tiers, fst (snd tiers), snd (snd tiers) @ [issue]))"

definition group_by_severity :: "BrokenReference list
    \<Rightarrow> BrokenReference list \<times> BrokenReference list \<times> BrokenReference list" where
  "group_by_severity all_issues = fold classify all_issues ([], [], [])"

definition get_count :: "(string \<times> nat) list \<Rightarrow> string \<Rightarrow> nat" where
  "get_count d k = (case map_of d k of None \<Rightarrow> 0 | Some n \<Rightarrow> n)"

definition count_service :: "BrokenReference \<Rightarrow> (string \<times> nat) list \<Rightarrow> (string \<times> nat) list" where
  "count_service issue service_issues =
     (case re_search rx_service (source_file issue) of
        None \<Rightarrow> service_issues
      | Some service_match \<Rightarrow>
          AList.update (group_str service_match 1)
            (get_count service_issues (group_str service_match 1) + 1) service_issues)"

text \<open>\<^verbatim>\<open>sorted(items, key=lambda x: x[1], reverse=True)[:20]\<close>; both sorts are stable.\<close>

definition top_services :: "(string \<times> nat) list \<Rightarrow> (string \<times> nat) list" where
  "top_services service_issues = take 20 (sort_key (\<lambda>x. - int (snd x)) service_issues)"

definition all_issues_of :: "ValidationReport \<Rightarrow> BrokenReference list" where
  "all_issues_of r =
     broken_imports r @ broken_method_calls r @ missing_beans r @ broken_feign_clients r"

definition generate_report :: "ReferenceValidator \<Rightarrow> report_json" where
  "generate_report v =
     (let all_issues = all_issues_of (report v);
          tiers = group_by_severity all_issues;
          service_issues = fold count_service all_issues []
      in \<lparr>summary = \<lparr>total_issues = length all_issues,
                       critical = length (fst tiers),
                       errors = length (fst (snd tiers)),
                       warnings = length (snd (snd tiers)),
                       circular_dependency_count = length (circular_dependencies (report v)),
                       services_affected_count = length service_issues,
                       classes_scanned = length (class_registry v)\<rparr>,
          by_category = \<lparr>n_broken_imports = length (broken_imports (report v)),
                           n_broken_method_calls = length (broken_method_calls (report v)),
                           n_missing_beans = length (missing_beans (report v)),
                           n_broken_feign_clients = length (broken_feign_clients (report v))\<rparr>,
          critical_issues = map to_json (take 50 (fst tiers)),
          error_issues = map to_json (take 100 (fst (snd tiers))),
          warning_issues = map to_json (take 100 (snd (snd tiers))),
          circular_pairs = take 50 (circular_dependencies (report v)),
          services_affected = top_services service_issues\<rparr>)"

section \<open>\<^verbatim>\<open>run_validation\<close>\<close>

definition run_phases :: "(string list \<Rightarrow> string list) \<Rightarrow> java_file list \<Rightarrow> ReferenceValidator" where
  "run_phases so tree =
     detect_circular_dependencies so tree
       (validate_feign_clients
         (validate_spring_beans tree
           (validate_method_calls so tree
             (validate_imports tree
               (scan_all_classes tree init_validator)))))"

definition run_validation :: "(string list \<Rightarrow> string list) \<Rightarrow> java_file list \<Rightarrow> report_json" where
  "run_validation so tree = generate_report (run_phases so tree)"

section \<open>\<^verbatim>\<open>DeepValidator.build_class_registry\<close> of \<^verbatim>\<open>deep_validation.py\<close>\<close>

record class_definition =
  def_type :: string
  is_public :: bool
  def_file :: string

record DeepValidator =
  class_files :: "(string \<times> string) list"
  imports_map :: "(string \<times> string list) list"
  class_definitions :: "(string \<times> class_definition) list"

definition init_deep :: DeepValidator where
  "init_deep = \<lparr>class_files = [], imports_map = [], class_definitions = []\<rparr>"

text \<open>\<^verbatim>\<open>(public\s+)?(class|interface|enum|@interface)\s+(\w+)\<close>\<close>

definition rx_deep_class :: rx where
  "rx_deep_class = rx_seq [rx_opt (Group 1 (Seq (rx_lit ''public'') (rx_plus ws))),
     Group 2 (Alt (rx_lit ''class'') (Alt (rx_lit ''interface'')
                (Alt (rx_lit ''enum'') (rx_lit ''@interface'')))),
     rx_plus ws, Group 3 (rx_plus wd)]"

text \<open>\<^verbatim>\<open>rf'{class_name}\s*{{[^}}]*?(public\s+)?(static\s+)?(class|interface|enum)\s+(\w+)'\<close>;
  the class name is a run of word characters and matches itself.\<close>

definition rx_inner :: "string \<Rightarrow> rx" where
  "rx_inner class_name = rx_seq [rx_lit class_name, Star ws, rx_lit ''{'',
     LazyStar (none_of ''}''),
     rx_opt (Group 1 (Seq (rx_lit ''public'') (rx_plus ws))),
     rx_opt (Group 2 (Seq (rx_lit ''static'') (rx_plus ws))),
     Group 3 (Alt (rx_lit ''class'') (Alt (rx_lit ''interface'') (rx_lit ''enum''))),
     rx_plus ws, Group 4 (rx_plus wd)]"

definition is_test_path :: "string \<Rightarrow> bool" where
  "is_test_path p = (contains ''/test/'' p \<or> contains ''/tests/'' p)"

definition register_inner :: "string \<Rightarrow> string \<Rightarrow> rmatch \<Rightarrow> (string \<times> string) list
    \<Rightarrow> (string \<times> string) list" where
  "register_inner fqn java_file inner_match cf =
     AList.update (fqn @ ''.'' @ group_str inner_match 4) java_file cf"

definition register_class :: "string \<Rightarrow> string \<Rightarrow> string \<Rightarrow> rmatch \<Rightarrow> DeepValidator
    \<Rightarrow> DeepValidator" where
  "register_class package java_file text m d =
     (let class_name = group_str m 3;
          fqn = package @ ''.'' @ class_name
      in d\<lparr>class_files :=
              fold (register_inner fqn java_file) (re_finditer (rx_inner class_name) text)
                (AList.update fqn java_file (class_files d)),
            class_definitions :=
              AList.update fqn
                \<lparr>def_type = group_str m 2, is_public = truthy (group m 1), def_file = java_file\<rparr>
                (class_definitions d)\<rparr>)"

definition register_import :: "string \<Rightarrow> rmatch \<Rightarrow> (string \<times> string list) list
    \<Rightarrow> (string \<times> string list) list" where
  "register_import java_file import_match im =
     (let imported = group_str import_match 1 in
      if internal imported \<and> \<not> endswith imported ''*''
      then dict_set_add java_file imported im else im)"

definition registry_of_file :: "java_file \<Rightarrow> DeepValidator \<Rightarrow> DeepValidator" where
  "registry_of_file f d =
     (if is_test_path (path f) then d
      else case contents f of
        None \<Rightarrow> d
      | Some text \<Rightarrow>
         (case re_search rx_package text of
            None \<Rightarrow> d
          | Some package_match \<Rightarrow>
              (let d' = fold (register_class (group_str package_match 1) (path f) text)
                          (re_finditer rx_deep_class text) d
               in d'\<lparr>imports_map :=
                       fold (register_import (path f)) (re_finditer rx_import text)
                         (imports_map d')\<rparr>)))"

definition build_class_registry :: "java_file list \<Rightarrow> DeepValidator \<Rightarrow> DeepValidator" where
  "build_class_registry tree d = fold registry_of_file (rglob_java tree) d"

section \<open>Example inputs\<close>

definition v_three_issues :: ReferenceValidator where
  "v_three_issues = init_validator\<lparr>report := empty_report\<lparr>
     broken_imports := [missing_import ''/r/services/a/A.java'' 2 ''com.waqiti.x.Zed'',
                        non_public_import ''/r/services/a/A.java'' 3 ''com.waqiti.x.B''],
     broken_feign_clients := [missing_feign_fallback ''/r/services/a/C.java'' ''Fb'']\<rparr>\<rparr>"

definition text_q :: string where
  "text_q = ''package com.waqiti.x;'' @ [nl] @ ''import com.waqiti.x.Zed;'' @ [nl] @ ''class Q {}''"

definition file_q :: java_file where
  "file_q = \<lparr>path = ''/r/services/a/Q.java'', contents = Some text_q\<rparr>"

definition match_zed :: rmatch where
  "match_zed = \<lparr>m_start = 0, m_rest = [], m_caps = [(1, ''com.waqiti.x.Zed'')]\<rparr>"

definition text_inj :: string where
  "text_inj = ''import com.waqiti.x.B; @Autowired private B b;''"

definition file_inj :: java_file where
  "file_inj = \<lparr>path = ''/r/services/a/I.java'', contents = Some text_inj\<rparr>"

definition match_inj :: rmatch where
  "match_inj = \<lparr>m_start = 23, m_rest = [], m_caps = [(3, ''b''), (2, ''B''), (1, ''Autowired'')]\<rparr>"

definition v_plain_b :: ReferenceValidator where
  "v_plain_b = init_validator\<lparr>class_registry := [(''com.waqiti.x.B'', ''/r/services/a/B.java'')]\<rparr>"





definition text_call :: string where
  "text_call = ''walletService.pay(1);''"

definition file_call :: java_file where
  "file_call = \<lparr>path = ''/r/services/a/P.java'', contents = Some text_call\<rparr>"

definition match_pay :: rmatch where
  "match_pay = \<lparr>m_start = 0, m_rest = ''1);'', m_caps = [(1, ''pay'')]\<rparr>"

definition v_wallet :: ReferenceValidator where
  "v_wallet = init_validator\<lparr>class_registry :=
       [(''com.waqiti.wallet.service.WalletService'', ''/r/services/w/WalletService.java'')],
     class_methods := [(''com.waqiti.wallet.service.WalletService'', [''debit'', ''credit''])]\<rparr>"

definition text_a :: string where
  "text_a = ''package com.waqiti.x; import com.waqiti.x.B; public class A {}''"

definition text_b :: string where
  "text_b = ''package com.waqiti.x; import com.waqiti.x.A; public class B {}''"

definition file_a :: java_file where
  "file_a = \<lparr>path = ''/r/services/a/A.java'', contents = Some text_a\<rparr>"

definition file_b :: java_file where
  "file_b = \<lparr>path = ''/r/services/b/B.java'', contents = Some text_b\<rparr>"

definition tree_ab :: "java_file list" where
  "tree_ab = [file_a, file_b]"

definition text_self :: string where
  "text_self = ''package com.waqiti.x; import com.waqiti.x.A; public class A {}''"

definition file_self :: java_file where
  "file_self = \<lparr>path = ''/r/services/a/A.java'', contents = Some text_self\<rparr>"

definition tree_self :: "java_file list" where
  "tree_self = [file_self]"

definition text_ext :: string where
  "text_ext = ''package org.demo; import org.demo.A; public class A {}''"

definition file_ext :: java_file where
  "file_ext = \<lparr>path = ''/r/services/a/A.java'', contents = Some text_ext\<rparr>"

definition tree_ext :: "java_file list" where
  "tree_ext = [file_ext]"

definition file_t :: java_file where
  "file_t = \<lparr>path = ''/r/services/a/src/test/java/Q.java'', contents = Some text_q\<rparr>"

definition file_g :: java_file where
  "file_g = \<lparr>path = ''/r/services/a/target/classes/A.java'', contents = Some text_a\<rparr>"

definition line1_q :: string where
  "line1_q = ''package com.waqiti.x;'' @ [nl]"

definition line2_q :: string where
  "line2_q = ''import com.waqiti.x.Zed;'' @ [nl]"

definition line3_q :: string where
  "line3_q = ''class Q {}''"

definition tree_deep :: "java_file list" where
  "tree_deep = [file_t, file_g]"

definition text_wc :: string where
  "text_wc = ''import com.waqiti.x.Y; // see com.waqiti.z.*;''"

definition file_wc :: java_file where
  "file_wc = \<lparr>path = ''/r/services/a/W.java'', contents = Some text_wc\<rparr>"

definition match_wc :: rmatch where
  "match_wc = \<lparr>m_start = 0, m_rest = '' // see com.waqiti.z.*;'',
     m_caps = [(1, ''com.waqiti.x.Y'')]\<rparr>"

definition text_plain :: string where
  "text_plain = ''import com.waqiti.x.Y;''"

definition file_plain :: java_file where
  "file_plain = \<lparr>path = ''/r/services/a/W.java'', contents = Some text_plain\<rparr>"

definition file_bean_b :: java_file where
  "file_bean_b = \<lparr>path = ''/r/services/a/B.java'',
     contents = Some ''package com.waqiti.x; public class B {}''\<rparr>"

definition text_one_space :: string where
  "text_one_space =
     ''package com.waqiti.x; import com.waqiti.x.B; public class A { @Autowired B b; }''"

definition text_two_spaces :: string where
  "text_two_spaces =
     ''package com.waqiti.x; import com.waqiti.x.B; public class A { @Autowired  B b; }''"

definition file_one_space :: java_file where
  "file_one_space = \<lparr>path = ''/r/services/a/A.java'', contents = Some text_one_space\<rparr>"

definition file_two_spaces :: java_file where
  "file_two_spaces = \<lparr>path = ''/r/services/a/A.java'', contents = Some text_two_spaces\<rparr>"

definition v_bean_tree :: ReferenceValidator where
  "v_bean_tree = \<lparr>report = empty_report,
     class_registry = [(''com.waqiti.x.B'', ''/r/services/a/B.java''),
                       (''com.waqiti.x.A'', ''/r/services/a/A.java'')],
     public_classes = [''com.waqiti.x.B'', ''com.waqiti.x.A''],
     component_classes = [], service_classes = [], repository_classes = [],
     feign_clients = [], class_methods = []\<rparr>"





section \<open>Properties of the report\<close>

lemma fold_classify:
  "fold classify xs (a, b, c) =
     (a @ filter (\<lambda>i. severity i = ''ERROR'' \<and> mentions_failure i) xs,
      b @ filter (\<lambda>i. severity i = ''ERROR'' \<and> \<not> mentions_failure i) xs,
      c @ filter (\<lambda>i. severity i \<noteq> ''ERROR'') xs)"
  by (induction xs arbitrary: a b c) (auto simp: classify_def)

lemma group_by_severity_filter:
  "group_by_severity xs =
     (filter (\<lambda>i. severity i = ''ERROR'' \<and> mentions_failure i) xs,
      filter (\<lambda>i. severity i = ''ERROR'' \<and> \<not> mentions_failure i) xs,
      filter (\<lambda>i. severity i \<noteq> ''ERROR'') xs)"
  by (simp add: group_by_severity_def fold_classify)

lemma tiers_partition:
  "length (fst (group_by_severity xs)) + length (fst (snd (group_by_severity xs)))
     + length (snd (snd (group_by_severity xs))) = length xs"
  unfolding group_by_severity_filter by (induction xs) auto

lemma summary_generate_report:
  "summary (generate_report v) =
     \<lparr>total_issues = length (all_issues_of (report v)),
      critical = length (fst (group_by_severity (all_issues_of (report v)))),
      errors = length (fst (snd (group_by_severity (all_issues_of (report v))))),
      warnings = length (snd (snd (group_by_severity (all_issues_of (report v))))),
      circular_dependency_count = length (circular_dependencies (report v)),
      services_affected_count = length (fold count_service (all_issues_of (report v)) []),
      classes_scanned = length (class_registry v)\<rparr>"
  by (simp add: generate_report_def Let_def)

lemma total_issues_generate_report:
  "total_issues (summary (generate_report v)) =
     length (broken_imports (report v)) + length (broken_method_calls (report v))
       + length (missing_beans (report v)) + length (broken_feign_clients (report v))"
  by (simp add: summary_generate_report all_issues_of_def)

lemma tiers_sum_generate_report:
  "critical (summary (generate_report v)) + errors (summary (generate_report v))
     + warnings (summary (generate_report v)) = total_issues (summary (generate_report v))"
  by (simp add: summary_generate_report tiers_partition)

lemma detail_caps_generate_report:
  "length (critical_issues (generate_report v)) = min 50 (critical (summary (generate_report v)))"
  "length (error_issues (generate_report v)) = min 100 (errors (summary (generate_report v)))"
  "length (warning_issues (generate_report v)) = min 100 (warnings (summary (generate_report v)))"
  "length (circular_pairs (generate_report v))
     = min 50 (circular_dependency_count (summary (generate_report v)))"
  "length (services_affected (generate_report v))
     = min 20 (services_affected_count (summary (generate_report v)))"
  by (simp_all add: generate_report_def Let_def top_services_def min_def)

subsection \<open>The phases only append to the report\<close>

lemma report_scan_file: "report (scan_file f v) = report v"
  by (simp add: scan_file_def Let_def split: option.splits)

lemma report_fold_scan: "report (fold scan_file fs v) = report v"
  by (induction fs arbitrary: v) (simp_all add: report_scan_file)

lemma check_import_line_report [simp]:
  "check_import_line (v\<lparr>report := r\<rparr>) = check_import_line v"
  by (intro ext) (simp add: check_import_line_def Let_def split: option.split)

lemma imports_of_file_report [simp]: "imports_of_file (v\<lparr>report := r\<rparr>) = imports_of_file v"
  by (intro ext) (simp add: imports_of_file_def Let_def split: option.split)

lemma check_call_report [simp]: "check_call so (v\<lparr>report := r\<rparr>) = check_call so v"
  by (intro ext) (simp add: check_call_def broken_call_def Let_def split: option.split)

lemma calls_of_file_report [simp]: "calls_of_file so (v\<lparr>report := r\<rparr>) = calls_of_file so v"
  by (intro ext) (simp add: calls_of_file_def calls_of_pattern_def [abs_def] Let_def split: option.split)

lemma check_bean_report [simp]: "check_bean (v\<lparr>report := r\<rparr>) = check_bean v"
  by (intro ext) (simp add: check_bean_def Let_def split: option.split)

lemma beans_of_file_report [simp]: "beans_of_file (v\<lparr>report := r\<rparr>) = beans_of_file v"
  by (intro ext) (simp add: beans_of_file_def Let_def split: option.split)

lemma check_feign_report [simp]: "check_feign (v\<lparr>report := r\<rparr>) = check_feign v"
  by (intro ext) (simp add: check_feign_def Let_def split: option.split)

lemma add_import_report [simp]: "add_import (v\<lparr>report := r\<rparr>) = add_import v"
  by (intro ext) (simp add: add_import_def)

lemma add_file_dependencies_report [simp]:
  "add_file_dependencies (v\<lparr>report := r\<rparr>) = add_file_dependencies v"
  by (intro ext) (simp add: add_file_dependencies_def split: option.split)

lemma build_dependencies_report [simp]:
  "build_dependencies (v\<lparr>report := r\<rparr>) = build_dependencies v"
  by (intro ext) (simp add: build_dependencies_def)

lemma run_phases_eq:
  "run_phases so tree =
     (scan_all_classes tree init_validator)\<lparr>report :=
        \<lparr>broken_imports =
           concat (map (imports_of_file (scan_all_classes tree init_validator)) (rglob_java tree)),
         broken_method_calls =
           concat (map (calls_of_file so (scan_all_classes tree init_validator)) (rglob_java tree)),
         missing_beans =
           concat (map (beans_of_file (scan_all_classes tree init_validator)) (rglob_java tree)),
         broken_feign_clients =
           concat (map (check_feign (scan_all_classes tree init_validator))
                       (feign_clients (scan_all_classes tree init_validator))),
         circular_dependencies =
           cycle_pairs so (build_dependencies (scan_all_classes tree init_validator) tree),
         deprecated_usage = []\<rparr>\<rparr>"
proof -
  have r: "report (scan_all_classes tree init_validator) = empty_report"
    by (simp add: scan_all_classes_def report_fold_scan init_validator_def)
  show ?thesis
    by (simp add: run_phases_def detect_circular_dependencies_def validate_feign_clients_def
        validate_spring_beans_def validate_method_calls_def validate_imports_def r
        empty_report_def)
qed


subsection \<open>The order of iteration over a set\<close>

lemma length_filter_mset_eq:
  assumes "mset xs = mset ys"
  shows "length (filter P xs) = length (filter P ys)"
proof -
  have "mset (filter P xs) = mset (filter P ys)"
    using assms by simp
  then show ?thesis
    by (rule mset_eq_length)
qed

lemma length_concat_guard:
  "length (concat (map (\<lambda>x. if P x then [g x] else []) xs)) = length (filter P xs)"
  by (induction xs) auto

lemma length_cycles_of:
  assumes "\<forall>xs. mset (so xs) = mset xs"
  shows "length (cycles_of so deps item)
       = length (filter (\<lambda>cls_b. fst item \<in> set (get_set deps cls_b)) (snd item))"
  unfolding cycles_of_def length_concat_guard
  using assms by (intro length_filter_mset_eq) simp

lemma length_cycle_pairs:
  assumes "\<forall>xs. mset (so xs) = mset xs"
  shows "length (cycle_pairs so deps)
       = (\<Sum>item\<leftarrow>deps. length (filter (\<lambda>cls_b. fst item \<in> set (get_set deps cls_b)) (snd item)))"
  by (simp add: cycle_pairs_def length_concat comp_def length_cycles_of [OF assms])

lemma erase_check_call:
  "map (\<lambda>b. b\<lparr>actual := []\<rparr>) (check_call so1 v p t c m)
     = map (\<lambda>b. b\<lparr>actual := []\<rparr>) (check_call so2 v p t c m)"
  by (simp add: check_call_def broken_call_def Let_def)

lemma erase_calls_of_file:
  "map (\<lambda>b. b\<lparr>actual := []\<rparr>) (calls_of_file so1 v f)
     = map (\<lambda>b. b\<lparr>actual := []\<rparr>) (calls_of_file so2 v f)"
  by (simp add: calls_of_file_def calls_of_pattern_def map_concat comp_def erase_check_call [of so1 _ _ _ _ _ so2]
      split: option.split)

lemma erase_calls:
  "map (\<lambda>b. b\<lparr>actual := []\<rparr>) (concat (map (calls_of_file so1 v) fs))
     = map (\<lambda>b. b\<lparr>actual := []\<rparr>) (concat (map (calls_of_file so2 v) fs))"
  by (simp add: map_concat comp_def erase_calls_of_file [of so1 _ _ so2])

lemma count_service_erase: "count_service (b\<lparr>actual := a\<rparr>) = count_service b"
  by (intro ext) (simp add: count_service_def)

lemma fold_count_service_erase:
  "fold count_service (map (\<lambda>b. b\<lparr>actual := []\<rparr>) xs) d = fold count_service xs d"
  by (induction xs arbitrary: d) (simp_all add: count_service_erase)

lemma length_filter_erase:
  assumes "map e xs = map e ys" and "\<And>b. P (e b) = P b"
  shows "length (filter P xs) = length (filter P ys)"
proof -
  have "length xs = length ys"
    using assms(1) by (rule map_eq_imp_length_eq)
  then show ?thesis
    using assms(1)
  proof (induction xs ys rule: list_induct2)
    case Nil
    then show ?case by simp
  next
    case (Cons x xs y ys)
    then have "e x = e y" and "map e xs = map e ys"
      by simp_all
    moreover have "P x = P y"
      using \<open>e x = e y\<close> assms(2) by metis
    ultimately show ?case
      using Cons.IH by simp
  qed
qed

lemma tiers_counts_erase:
  assumes "map (\<lambda>b. b\<lparr>actual := []\<rparr>) xs = map (\<lambda>b. b\<lparr>actual := []\<rparr>) ys"
  shows "length (fst (group_by_severity xs)) = length (fst (group_by_severity ys))"
    and "length (fst (snd (group_by_severity xs))) = length (fst (snd (group_by_severity ys)))"
    and "length (snd (snd (group_by_severity xs))) = length (snd (snd (group_by_severity ys)))"
    and "length (fold count_service xs []) = length (fold count_service ys [])"
    and "length xs = length ys"
proof -
  show "length (fst (group_by_severity xs)) = length (fst (group_by_severity ys))"
    unfolding group_by_severity_filter fst_conv
    by (rule length_filter_erase [OF assms]) (simp add: mentions_failure_def)
  show "length (fst (snd (group_by_severity xs))) = length (fst (snd (group_by_severity ys)))"
    unfolding group_by_severity_filter fst_conv snd_conv
    by (rule length_filter_erase [OF assms]) (simp add: mentions_failure_def)
  show "length (snd (snd (group_by_severity xs))) = length (snd (snd (group_by_severity ys)))"
    unfolding group_by_severity_filter snd_conv
    by (rule length_filter_erase [OF assms]) simp
  have "fold count_service (map (\<lambda>b. b\<lparr>actual := []\<rparr>) xs) []
      = fold count_service (map (\<lambda>b. b\<lparr>actual := []\<rparr>) ys) []"
    using assms by simp
  then show "length (fold count_service xs []) = length (fold count_service ys [])"
    by (simp only: fold_count_service_erase)
  show "length xs = length ys"
    using assms by (rule map_eq_imp_length_eq)
qed

text \<open>
  Claim C9. Two runs over the same tree, enumerated in the same order, can differ only in
  the order in which Python iterates over its sets. Whatever these orders are, as long as
  each iteration visits every element once, the summary counts of the two reports are the
  same.
\<close>

theorem summary_independent_of_set_order:
  assumes "\<forall>xs. mset (so1 xs) = mset xs" and "\<forall>xs. mset (so2 xs) = mset xs"
  shows "summary (run_validation so1 tree) = summary (run_validation so2 tree)"
proof -
  let ?e = "map (\<lambda>b. b\<lparr>actual := []\<rparr>)"
  have e: "?e (all_issues_of (report (run_phases so1 tree)))
         = ?e (all_issues_of (report (run_phases so2 tree)))"
    by (simp add: run_phases_eq all_issues_of_def erase_calls [of so1 _ _ so2])
  have c: "length (circular_dependencies (report (run_phases so1 tree)))
         = length (circular_dependencies (report (run_phases so2 tree)))"
    by (simp add: run_phases_eq length_cycle_pairs [OF assms(1)] length_cycle_pairs [OF assms(2)])
  have r: "class_registry (run_phases so1 tree) = class_registry (run_phases so2 tree)"
    by (simp add: run_phases_eq)
  show ?thesis
    unfolding run_validation_def summary_generate_report
    using tiers_counts_erase [OF e] c r by simp
qed


theorem summary_independent_of_set_order_witness:
  "(\<forall>xs :: string list. mset (rev xs) = mset xs)
   \<and> summary (run_validation (\<lambda>xs. xs) tree_ab) = summary (run_validation rev tree_ab)"
  using summary_independent_of_set_order [of "\<lambda>xs. xs" rev tree_ab] by simp

lemma lower_circuit: "lower ''Circuit breaker will not work'' = ''circuit breaker will not work''"
  by code_simp

lemma lower_compilation_fail: "lower ''Compilation will fail'' = ''compilation will fail''"
  by code_simp

lemma lower_runtime: "lower ''Runtime error or compilation failure'' = ''runtime error or compilation failure''"
  by code_simp

lemma lower_startup_fail: "lower ''Application startup will fail'' = ''application startup will fail''"
  by code_simp

lemma lower_bean_startup: "lower ''Bean not found exception at startup'' = ''bean not found exception at startup''"
  by code_simp

lemma lower_fallback: "lower ''Fallback will not be registered'' = ''fallback will not be registered''"
  by code_simp

lemma lower_may_cause: "lower ''May cause compilation issues'' = ''may cause compilation issues''"
  by code_simp

lemma tier_of_missing_import:
  "severity (missing_import p n c) = ''ERROR'' \<and> mentions_failure (missing_import p n c)"
  by (simp add: missing_import_def mentions_failure_def lower_compilation_fail)

lemma tier_of_broken_call:
  "severity (broken_call so v p n c m) = ''ERROR'' \<and> mentions_failure (broken_call so v p n c m)"
  by (simp add: broken_call_def mentions_failure_def lower_runtime)

lemma tier_of_missing_bean_class:
  "severity (missing_bean_class p n c) = ''ERROR'' \<and> mentions_failure (missing_bean_class p n c)"
  by (simp add: missing_bean_class_def mentions_failure_def lower_startup_fail)

lemma tier_of_missing_bean_annotation:
  "severity (missing_bean_annotation p n c) = ''ERROR''
     \<and> mentions_failure (missing_bean_annotation p n c)"
  by (simp add: missing_bean_annotation_def mentions_failure_def lower_bean_startup)

lemma tier_of_missing_feign_fallback:
  "severity (missing_feign_fallback p c) = ''ERROR'' \<and> \<not> mentions_failure (missing_feign_fallback p c)"
  by (simp add: missing_feign_fallback_def mentions_failure_def lower_circuit)

lemma tier_of_feign_fallback_not_component:
  "severity (feign_fallback_not_component p c) = ''ERROR''
     \<and> \<not> mentions_failure (feign_fallback_not_component p c)"
  by (simp add: feign_fallback_not_component_def mentions_failure_def lower_fallback)

lemma tier_of_non_public_import:
  "severity (non_public_import p n c) = ''WARNING''"
  by (simp add: non_public_import_def)

text \<open>
  Claim C7. A finding of the four lists is in the critical tier exactly when its severity
  is \<^verbatim>\<open>ERROR\<close> and its impact text, in lower case, contains \<^verbatim>\<open>startup\<close> or
  \<^verbatim>\<open>compilation\<close>; it is in the errors tier exactly when its severity is \<^verbatim>\<open>ERROR\<close> and
  the impact has neither word; a finding of severity \<^verbatim>\<open>WARNING\<close> is in the warnings tier
  and in no other. So the missing-import, broken-call, missing-bean-class and
  missing-annotation findings are critical, the two Feign findings are errors, and the
  non-public-import finding is a warning. The detail lists of the report are the first
  entries of these tiers.
\<close>

theorem tiers_by_severity_and_impact:
  assumes "issue \<in> set (all_issues_of (report v))"
  shows "(issue \<in> set (fst (group_by_severity (all_issues_of (report v))))
            \<longleftrightarrow> severity issue = ''ERROR''
                \<and> (contains ''startup'' (lower (impact issue))
                    \<or> contains ''compilation'' (lower (impact issue))))
       \<and> (issue \<in> set (fst (snd (group_by_severity (all_issues_of (report v)))))
            \<longleftrightarrow> severity issue = ''ERROR''
                \<and> \<not> (contains ''startup'' (lower (impact issue))
                       \<or> contains ''compilation'' (lower (impact issue))))
       \<and> (severity issue = ''WARNING''
            \<longrightarrow> issue \<in> set (snd (snd (group_by_severity (all_issues_of (report v)))))
                \<and> issue \<notin> set (fst (group_by_severity (all_issues_of (report v))))
                \<and> issue \<notin> set (fst (snd (group_by_severity (all_issues_of (report v))))))
       \<and> (issue = missing_import p n c \<or> issue = broken_call so w p n c m
            \<or> issue = missing_bean_class p n c \<or> issue = missing_bean_annotation p n c
            \<longrightarrow> issue \<in> set (fst (group_by_severity (all_issues_of (report v)))))
       \<and> (issue = missing_feign_fallback p c \<or> issue = feign_fallback_not_component p c
            \<longrightarrow> issue \<in> set (fst (snd (group_by_severity (all_issues_of (report v))))))
       \<and> (issue = non_public_import p n c
            \<longrightarrow> issue \<in> set (snd (snd (group_by_severity (all_issues_of (report v))))))
       \<and> critical_issues (generate_report v)
            = map to_json (take 50 (fst (group_by_severity (all_issues_of (report v)))))
       \<and> error_issues (generate_report v)
            = map to_json (take 100 (fst (snd (group_by_severity (all_issues_of (report v))))))
       \<and> warning_issues (generate_report v)
            = map to_json (take 100 (snd (snd (group_by_severity (all_issues_of (report v))))))"
proof -
  have 1: "issue \<in> set (fst (group_by_severity (all_issues_of (report v))))
            \<longleftrightarrow> severity issue = ''ERROR''
                \<and> (contains ''startup'' (lower (impact issue))
                    \<or> contains ''compilation'' (lower (impact issue)))"
    using assms by (simp add: group_by_severity_filter mentions_failure_def)
  have 2: "issue \<in> set (fst (snd (group_by_severity (all_issues_of (report v)))))
            \<longleftrightarrow> severity issue = ''ERROR''
                \<and> \<not> (contains ''startup'' (lower (impact issue))
                       \<or> contains ''compilation'' (lower (impact issue)))"
    using assms by (simp add: group_by_severity_filter mentions_failure_def)
  have 3: "severity issue = ''WARNING''
            \<longrightarrow> issue \<in> set (snd (snd (group_by_severity (all_issues_of (report v)))))
                \<and> issue \<notin> set (fst (group_by_severity (all_issues_of (report v))))
                \<and> issue \<notin> set (fst (snd (group_by_severity (all_issues_of (report v)))))"
    using assms by (simp add: group_by_severity_filter)
  have 4: "issue = missing_import p n c \<or> issue = broken_call so w p n c m
            \<or> issue = missing_bean_class p n c \<or> issue = missing_bean_annotation p n c
            \<longrightarrow> issue \<in> set (fst (group_by_severity (all_issues_of (report v))))"
    using assms tier_of_missing_import [of p n c] tier_of_broken_call [of so w p n c m]
      tier_of_missing_bean_class [of p n c] tier_of_missing_bean_annotation [of p n c]
    by (auto simp: group_by_severity_filter)
  have 5: "issue = missing_feign_fallback p c \<or> issue = feign_fallback_not_component p c
            \<longrightarrow> issue \<in> set (fst (snd (group_by_severity (all_issues_of (report v)))))"
    using assms tier_of_missing_feign_fallback [of p c] tier_of_feign_fallback_not_component [of p c]
    by (auto simp: group_by_severity_filter)
  have 6: "issue = non_public_import p n c
            \<longrightarrow> issue \<in> set (snd (snd (group_by_severity (all_issues_of (report v)))))"
    using assms tier_of_non_public_import [of p n c]
    by (auto simp: group_by_severity_filter)
  have 7: "critical_issues (generate_report v)
            = map to_json (take 50 (fst (group_by_severity (all_issues_of (report v)))))"
    by (simp add: generate_report_def Let_def)
  have 8: "error_issues (generate_report v)
            = map to_json (take 100 (fst (snd (group_by_severity (all_issues_of (report v))))))"
    by (simp add: generate_report_def Let_def)
  have 9: "warning_issues (generate_report v)
            = map to_json (take 100 (snd (snd (group_by_severity (all_issues_of (report v))))))"
    by (simp add: generate_report_def Let_def)
  show ?thesis
    using 1 2 3 4 5 6 7 8 9 by blast
qed

theorem tiers_by_severity_and_impact_witness:
  "missing_import ''/r/services/a/A.java'' 2 ''com.waqiti.x.Zed''
       \<in> set (all_issues_of (report v_three_issues))
   \<and> missing_import ''/r/services/a/A.java'' 2 ''com.waqiti.x.Zed''
       \<in> set (fst (group_by_severity (all_issues_of (report v_three_issues))))
   \<and> group_by_severity (all_issues_of (report v_three_issues))
       = ([missing_import ''/r/services/a/A.java'' 2 ''com.waqiti.x.Zed''],
          [missing_feign_fallback ''/r/services/a/C.java'' ''Fb''],
          [non_public_import ''/r/services/a/A.java'' 3 ''com.waqiti.x.B''])
   \<and> critical (summary (generate_report v_three_issues)) = 1
   \<and> errors (summary (generate_report v_three_issues)) = 1
   \<and> warnings (summary (generate_report v_three_issues)) = 1"
proof -
  have a: "all_issues_of (report v_three_issues)
         = [missing_import ''/r/services/a/A.java'' 2 ''com.waqiti.x.Zed'',
            non_public_import ''/r/services/a/A.java'' 3 ''com.waqiti.x.B'',
            missing_feign_fallback ''/r/services/a/C.java'' ''Fb'']"
    by (simp add: v_three_issues_def all_issues_of_def empty_report_def init_validator_def)
  have h: "missing_import ''/r/services/a/A.java'' 2 ''com.waqiti.x.Zed''
             \<in> set (all_issues_of (report v_three_issues))"
    by (simp add: a)
  have c: "missing_import ''/r/services/a/A.java'' 2 ''com.waqiti.x.Zed''
             \<in> set (fst (group_by_severity (all_issues_of (report v_three_issues))))"
    using tiers_by_severity_and_impact [OF h, of "''/r/services/a/A.java''" 2 "''com.waqiti.x.Zed''"] by blast
  have g: "group_by_severity (all_issues_of (report v_three_issues))
       = ([missing_import ''/r/services/a/A.java'' 2 ''com.waqiti.x.Zed''],
          [missing_feign_fallback ''/r/services/a/C.java'' ''Fb''],
          [non_public_import ''/r/services/a/A.java'' 3 ''com.waqiti.x.B''])"
    unfolding a group_by_severity_filter
    using tier_of_missing_import [of "''/r/services/a/A.java''" 2 "''com.waqiti.x.Zed''"]
      tier_of_missing_feign_fallback [of "''/r/services/a/C.java''" "''Fb''"]
      tier_of_non_public_import [of "''/r/services/a/A.java''" 3 "''com.waqiti.x.B''"]
    by simp
  show ?thesis
    using h c g by (simp add: summary_generate_report)
qed

text \<open>
  Claim C8. \<^verbatim>\<open>summary.total_issues\<close> is the number of all findings of the four checking
  phases (imports, method calls, beans, Feign clients), and is the sum of the three tier
  counts; the detail arrays hold at most 50, 100, 100, 50 and 20 entries, each the
  smaller of its cap and the corresponding summary count.
\<close>

theorem total_issues_counts_every_finding:
  "total_issues (summary (run_validation so tree))
     = length (concat (map (imports_of_file (scan_all_classes tree init_validator)) (rglob_java tree)))
     + length (concat (map (calls_of_file so (scan_all_classes tree init_validator)) (rglob_java tree)))
     + length (concat (map (beans_of_file (scan_all_classes tree init_validator)) (rglob_java tree)))
     + length (concat (map (check_feign (scan_all_classes tree init_validator))
                 (feign_clients (scan_all_classes tree init_validator))))
   \<and> total_issues (summary (generate_report v))
     = length (broken_imports (report v)) + length (broken_method_calls (report v))
       + length (missing_beans (report v)) + length (broken_feign_clients (report v))
   \<and> critical (summary (generate_report v)) + errors (summary (generate_report v))
       + warnings (summary (generate_report v)) = total_issues (summary (generate_report v))
   \<and> length (critical_issues (generate_report v)) = min 50 (critical (summary (generate_report v)))
   \<and> length (error_issues (generate_report v)) = min 100 (errors (summary (generate_report v)))
   \<and> length (warning_issues (generate_report v)) = min 100 (warnings (summary (generate_report v)))
   \<and> length (circular_pairs (generate_report v))
       = min 50 (circular_dependency_count (summary (generate_report v)))
   \<and> length (services_affected (generate_report v))
       = min 20 (services_affected_count (summary (generate_report v)))"
proof -
  have "total_issues (summary (run_validation so tree))
     = length (concat (map (imports_of_file (scan_all_classes tree init_validator)) (rglob_java tree)))
     + length (concat (map (calls_of_file so (scan_all_classes tree init_validator)) (rglob_java tree)))
     + length (concat (map (beans_of_file (scan_all_classes tree init_validator)) (rglob_java tree)))
     + length (concat (map (check_feign (scan_all_classes tree init_validator))
                 (feign_clients (scan_all_classes tree init_validator))))"
    unfolding run_validation_def total_issues_generate_report
    by (simp add: run_phases_eq)
  then show ?thesis
    using total_issues_generate_report [of v] tiers_sum_generate_report [of v]
      detail_caps_generate_report [of v]
    by (simp only: simp_thms)
qed

section \<open>Findings of the checking phases\<close>

subsection \<open>Findings of a site are findings of the phase\<close>

lemma set_concat_map_member: "x \<in> set xs \<Longrightarrow> set (F x) \<subseteq> set (concat (map F xs))"
  by auto

lemma filter_const_field:
  assumes "\<forall>b \<in> set xs. f b = c"
  shows "filter (\<lambda>b. f b = n) xs = (if c = n then xs else [])"
  using assms by (induction xs) auto

lemma check_import_line_fields:
  "b \<in> set (check_import_line v p nline) \<Longrightarrow> source_file b = p \<and> line_number b = fst nline"
  by (auto simp: check_import_line_def missing_import_def non_public_import_def Let_def
      split: option.splits if_splits)

lemma imports_of_file_source:
  "b \<in> set (imports_of_file v f) \<Longrightarrow> source_file b = path f"
  by (auto simp: imports_of_file_def split: option.splits dest: check_import_line_fields)

lemma filter_line_enumerate:
  "filter (\<lambda>b. line_number b = n) (concat (map (check_import_line v p) (enumerate k ls)))
     = (if k \<le> n \<and> n < k + length ls then check_import_line v p (n, ls ! (n - k)) else [])"
proof (induction ls arbitrary: k)
  case Nil
  then show ?case by auto
next
  case (Cons l ls)
  have hd: "filter (\<lambda>b. line_number b = n) (check_import_line v p (k, l))
          = (if k = n then check_import_line v p (k, l) else [])"
    by (rule filter_const_field) (auto dest: check_import_line_fields)
  show ?case
  proof (cases "k = n")
    case True
    then show ?thesis
      using hd Cons.IH [of "Suc k"] by simp
  next
    case False
    then show ?thesis
      using hd Cons.IH [of "Suc k"] by (auto simp: Suc_diff_le)
  qed
qed

lemma filter_source_other:
  assumes "\<forall>b \<in> set xs. source_file b \<noteq> p"
  shows "filter (\<lambda>b. source_file b = p \<and> Q b) xs = []"
  using assms by (induction xs) auto

lemma filter_source_same:
  assumes "\<forall>b \<in> set xs. source_file b = p"
  shows "filter (\<lambda>b. source_file b = p \<and> Q b) xs = filter Q xs"
  using assms by (induction xs) auto

lemma filter_file_imports:
  assumes "distinct (map path fs)" and "f \<in> set fs"
  shows "filter (\<lambda>b. source_file b = path f \<and> Q b) (concat (map (imports_of_file v) fs))
       = filter Q (imports_of_file v f)"
  using assms
proof (induction fs)
  case Nil
  then show ?case by simp
next
  case (Cons g fs)
  show ?case
  proof (cases "g = f")
    case True
    then have "path f \<notin> path ` set fs"
      using Cons.prems(1) by simp
    then have "\<forall>h \<in> set fs. path h \<noteq> path f"
      by (metis imageI)
    then have "\<forall>b \<in> set (concat (map (imports_of_file v) fs)). source_file b \<noteq> path f"
      by (auto dest: imports_of_file_source)
    then have "filter (\<lambda>b. source_file b = path f \<and> Q b) (concat (map (imports_of_file v) fs)) = []"
      by (rule filter_source_other)
    moreover have "filter (\<lambda>b. source_file b = path f \<and> Q b) (imports_of_file v f)
                 = filter Q (imports_of_file v f)"
      by (rule filter_source_same) (auto dest: imports_of_file_source)
    ultimately show ?thesis
      using True by simp
  next
    case False
    then have "f \<in> set fs" and "path g \<noteq> path f"
      using Cons.prems by auto
    then have "filter (\<lambda>b. source_file b = path f \<and> Q b) (imports_of_file v g) = []"
      by (intro filter_source_other) (auto dest: imports_of_file_source)
    then show ?thesis
      using Cons.IH Cons.prems(1) \<open>f \<in> set fs\<close> by simp
  qed
qed

lemma findings_of_import_line:
  assumes "f \<in> set (rglob_java tree)" and "distinct (map path (rglob_java tree))"
    and "contents f = Some text" and "i < length (readlines text)"
    and "broken_imports (report v) = []"
  shows "filter (\<lambda>b. source_file b = path f \<and> line_number b = i + 1)
           (broken_imports (report (validate_imports tree v)))
       = check_import_line v (path f) (i + 1, readlines text ! i)"
proof -
  have "filter (\<lambda>b. source_file b = path f \<and> line_number b = i + 1)
           (broken_imports (report (validate_imports tree v)))
      = filter (\<lambda>b. line_number b = i + 1) (imports_of_file v f)"
    using assms(5) by (simp add: validate_imports_def filter_file_imports [OF assms(2,1)])
  also have "\<dots> = check_import_line v (path f) (i + 1, readlines text ! i)"
    using assms(3,4) by (simp add: imports_of_file_def filter_line_enumerate)
  finally show ?thesis .
qed

text \<open>
  The findings of one import line. Take a line of a readable file that, stripped, starts
  with an import statement naming a class of the internal namespace. The findings of
  \<^verbatim>\<open>validate_imports\<close> for that file and that 1-based line number are: none when the class
  is registered and public; exactly the missing-import finding (severity \<^verbatim>\<open>ERROR\<close>, with
  the line's number) when the class is not registered and the stripped line does not end
  in \<^verbatim>\<open>*;\<close>; exactly the non-public finding (severity \<^verbatim>\<open>WARNING\<close>) when it is registered
  but not public.
\<close>

lemma import_line_findings:
  assumes "f \<in> set (rglob_java tree)" and "distinct (map path (rglob_java tree))"
    and "contents f = Some text" and "i < length (readlines text)"
    and "re_match rx_import (strip (readlines text ! i)) = Some m"
    and "internal (group_str m 1)"
    and "broken_imports (report v) = []"
  shows "(has_key (class_registry v) (group_str m 1) \<and> group_str m 1 \<in> set (public_classes v)
            \<longrightarrow> filter (\<lambda>b. source_file b = path f \<and> line_number b = i + 1)
                   (broken_imports (report (validate_imports tree v))) = [])
       \<and> (\<not> has_key (class_registry v) (group_str m 1)
            \<and> \<not> endswith (strip (readlines text ! i)) ''*;''
            \<longrightarrow> filter (\<lambda>b. source_file b = path f \<and> line_number b = i + 1)
                   (broken_imports (report (validate_imports tree v)))
                  = [missing_import (path f) (i + 1) (group_str m 1)])
       \<and> (has_key (class_registry v) (group_str m 1) \<and> group_str m 1 \<notin> set (public_classes v)
            \<longrightarrow> filter (\<lambda>b. source_file b = path f \<and> line_number b = i + 1)
                   (broken_imports (report (validate_imports tree v)))
                  = [non_public_import (path f) (i + 1) (group_str m 1)])
       \<and> severity (missing_import (path f) (i + 1) (group_str m 1)) = ''ERROR''
       \<and> line_number (missing_import (path f) (i + 1) (group_str m 1)) = i + 1
       \<and> severity (non_public_import (path f) (i + 1) (group_str m 1)) = ''WARNING''"
  unfolding findings_of_import_line [OF assms(1-4,7)]
  using assms(5,6)
  by (simp add: check_import_line_def missing_import_def non_public_import_def Let_def)

lemma import_line_findings_witness:
  "file_q \<in> set (rglob_java [file_q]) \<and> distinct (map path (rglob_java [file_q]))
   \<and> contents file_q = Some text_q \<and> 1 < length (readlines text_q)
   \<and> re_match rx_import (strip (readlines text_q ! 1)) = Some match_zed
   \<and> internal (group_str match_zed 1)
   \<and> broken_imports (report init_validator) = []
   \<and> filter (\<lambda>b. source_file b = path file_q \<and> line_number b = 1 + 1)
        (broken_imports (report (validate_imports [file_q] init_validator)))
      = [missing_import ''/r/services/a/Q.java'' 2 ''com.waqiti.x.Zed'']"
proof -
  have h1: "file_q \<in> set (rglob_java [file_q])" by code_simp
  have h2: "distinct (map path (rglob_java [file_q]))" by code_simp
  have h3: "contents file_q = Some text_q" by (simp add: file_q_def)
  have h4: "1 < length (readlines text_q)" by code_simp
  have h5: "re_match rx_import (strip (readlines text_q ! 1)) = Some match_zed" by code_simp
  have h6: "internal (group_str match_zed 1)" by code_simp
  have h7: "broken_imports (report init_validator) = []"
    by (simp add: init_validator_def empty_report_def)
  have n1: "\<not> has_key (class_registry init_validator) (group_str match_zed 1)"
    by (simp add: init_validator_def has_key_def)
  have n2: "\<not> endswith (strip (readlines text_q ! 1)) ''*;''" by code_simp
  have g: "group_str match_zed (Suc 0) = ''com.waqiti.x.Zed''" by code_simp
  have p: "path file_q = ''/r/services/a/Q.java''" by (simp add: file_q_def)
  show ?thesis
    using import_line_findings [OF h1 h2 h3 h4 h5 h6 h7] h1 h2 h3 h4 h5 h6 h7 n1 n2
    by (simp add: g p numeral_2_eq_2)
qed

lemma imports_run_phases:
  "broken_imports (report (run_phases so tree))
     = concat (map (imports_of_file (scan_all_classes tree init_validator)) (rglob_java tree))"
  by (simp add: run_phases_eq)

lemma scan_file_wc: "scan_all_classes [file_wc] init_validator = init_validator"
  by code_simp

lemma scan_file_plain: "scan_all_classes [file_plain] init_validator = init_validator"
  by code_simp

lemma match_text_wc: "re_match rx_import (strip text_wc) = Some match_wc" by code_simp

lemma group_match_wc: "group_str match_wc 1 = ''com.waqiti.x.Y''" by code_simp

lemma internal_y: "internal ''com.waqiti.x.Y''" by code_simp

lemma no_wildcard_in_match: "CHR ''*'' \<notin> set (group_str match_wc 1)" by code_simp

lemma imports_file_wc:
  "concat (map (imports_of_file init_validator) (rglob_java [file_wc])) = []"
  by code_simp

lemma imports_file_plain:
  "concat (map (imports_of_file init_validator) (rglob_java [file_plain]))
     = [missing_import ''/r/services/a/W.java'' 1 ''com.waqiti.x.Y'']"
  by code_simp

text \<open>
  Claim C3 breaks on an import line that is not a wildcard import but whose text ends in
  \<^verbatim>\<open>*;\<close>. The line \<^verbatim>\<open>import com.waqiti.x.Y; // see com.waqiti.z.*;\<close> matches the import
  pattern and names the internal class \<^verbatim>\<open>com.waqiti.x.Y\<close>, which no file declares. The run
  reports no broken import for it, while the same import without the trailing comment is
  reported as missing at line 1: the wildcard test looks at the end of the line, not at
  the import.
\<close>

theorem trailing_comment_hides_missing_import:
  "readlines text_wc = [text_wc]
   \<and> re_match rx_import (strip text_wc) = Some match_wc
   \<and> group_str match_wc 1 = ''com.waqiti.x.Y'' \<and> internal ''com.waqiti.x.Y''
   \<and> \<not> has_key (class_registry (scan_all_classes [file_wc] init_validator)) ''com.waqiti.x.Y''
   \<and> broken_imports (report (run_phases (\<lambda>xs. xs) [file_wc])) = []
   \<and> broken_imports (report (run_phases (\<lambda>xs. xs) [file_plain]))
       = [missing_import ''/r/services/a/W.java'' 1 ''com.waqiti.x.Y'']"
proof -
  have l: "readlines text_wc = [text_wc]" by code_simp
  have k: "\<not> has_key (class_registry (scan_all_classes [file_wc] init_validator)) ''com.waqiti.x.Y''"
    unfolding scan_file_wc by (simp add: init_validator_def has_key_def)
  have a: "broken_imports (report (run_phases (\<lambda>xs. xs) [file_wc])) = []"
    unfolding imports_run_phases scan_file_wc by (rule imports_file_wc)
  have b: "broken_imports (report (run_phases (\<lambda>xs. xs) [file_plain]))
       = [missing_import ''/r/services/a/W.java'' 1 ''com.waqiti.x.Y'']"
    unfolding imports_run_phases scan_file_plain by (rule imports_file_plain)
  show ?thesis
    using l match_text_wc group_match_wc internal_y k a b by blast
qed

subsection \<open>Injection sites\<close>

lemma check_bean_in_report:
  assumes "f \<in> set (rglob_java tree)" and "contents f = Some text"
    and "m \<in> set (re_finditer rx_autowired text)"
  shows "set (check_bean v (path f) text m)
       \<subseteq> set (missing_beans (report (validate_spring_beans tree v)))"
proof -
  have "set (check_bean v (path f) text m) \<subseteq> set (beans_of_file v f)"
    using assms(2,3) by (auto simp: beans_of_file_def)
  also have "\<dots> \<subseteq> set (concat (map (beans_of_file v) (rglob_java tree)))"
    using assms(1) by (rule set_concat_map_member)
  finally show ?thesis
    by (auto simp: validate_spring_beans_def)
qed

text \<open>
  The findings of one match of the injection pattern. For every match in a readable file
  whose resolved type contains the internal prefix: when the type is not a key of the
  registry the site yields exactly the missing-class finding; when it is, the site yields
  the missing-annotation finding if and only if the type is in none of the component,
  service and repository sets, and yields nothing else. Both findings have severity
  \<^verbatim>\<open>ERROR\<close>, carry the file, the line and the type, and are findings of the report.
\<close>

lemma injection_site_findings:
  assumes "f \<in> set (rglob_java tree)" and "contents f = Some text"
    and "m \<in> set (re_finditer rx_autowired text)"
    and "internal (resolve_base_type text m)"
  shows "set (check_bean v (path f) text m)
           \<subseteq> set (missing_beans (report (validate_spring_beans tree v)))
       \<and> (\<not> has_key (class_registry v) (resolve_base_type text m)
            \<longrightarrow> check_bean v (path f) text m
                  = [missing_bean_class (path f) (count_nl (take (m_start m) text) + 1)
                       (resolve_base_type text m)])
       \<and> (has_key (class_registry v) (resolve_base_type text m)
            \<longrightarrow> (missing_bean_annotation (path f) (count_nl (take (m_start m) text) + 1)
                       (resolve_base_type text m) \<in> set (check_bean v (path f) text m)
                   \<longleftrightarrow> resolve_base_type text m \<notin> set (component_classes v)
                       \<and> resolve_base_type text m \<notin> set (service_classes v)
                       \<and> resolve_base_type text m \<notin> set (repository_classes v))
                \<and> set (check_bean v (path f) text m)
                     \<subseteq> {missing_bean_annotation (path f) (count_nl (take (m_start m) text) + 1)
                          (resolve_base_type text m)})
       \<and> severity (missing_bean_class p n c) = ''ERROR''
       \<and> reference_type (missing_bean_class p n c) = ''SPRING_BEAN''
       \<and> source_file (missing_bean_class p n c) = p
       \<and> line_number (missing_bean_class p n c) = n
       \<and> target (missing_bean_class p n c) = c
       \<and> actual (missing_bean_class p n c) = ''Class not found''
       \<and> impact (missing_bean_class p n c) = ''Application startup will fail''
       \<and> severity (missing_bean_annotation p n c) = ''ERROR''
       \<and> reference_type (missing_bean_annotation p n c) = ''SPRING_BEAN''
       \<and> source_file (missing_bean_annotation p n c) = p
       \<and> line_number (missing_bean_annotation p n c) = n
       \<and> target (missing_bean_annotation p n c) = c
       \<and> actual (missing_bean_annotation p n c) = ''Missing Spring annotation''
       \<and> impact (missing_bean_annotation p n c) = ''Bean not found exception at startup''"
proof -
  have sites: "set (check_bean v (path f) text m)
           \<subseteq> set (missing_beans (report (validate_spring_beans tree v)))
       \<and> (\<not> has_key (class_registry v) (resolve_base_type text m)
            \<longrightarrow> check_bean v (path f) text m
                  = [missing_bean_class (path f) (count_nl (take (m_start m) text) + 1)
                       (resolve_base_type text m)])
       \<and> (has_key (class_registry v) (resolve_base_type text m)
            \<longrightarrow> (missing_bean_annotation (path f) (count_nl (take (m_start m) text) + 1)
                       (resolve_base_type text m) \<in> set (check_bean v (path f) text m)
                   \<longleftrightarrow> resolve_base_type text m \<notin> set (component_classes v)
                       \<and> resolve_base_type text m \<notin> set (service_classes v)
                       \<and> resolve_base_type text m \<notin> set (repository_classes v))
                \<and> set (check_bean v (path f) text m)
                     \<subseteq> {missing_bean_annotation (path f) (count_nl (take (m_start m) text) + 1)
                          (resolve_base_type text m)})"
    using check_bean_in_report [OF assms(1-3), of v] assms(4)
    by (auto simp: check_bean_def Let_def)
  have unknown: "severity (missing_bean_class p n c) = ''ERROR''
       \<and> reference_type (missing_bean_class p n c) = ''SPRING_BEAN''
       \<and> source_file (missing_bean_class p n c) = p
       \<and> line_number (missing_bean_class p n c) = n
       \<and> target (missing_bean_class p n c) = c
       \<and> actual (missing_bean_class p n c) = ''Class not found''
       \<and> impact (missing_bean_class p n c) = ''Application startup will fail''"
    by (simp add: missing_bean_class_def)
  have unannotated: "severity (missing_bean_annotation p n c) = ''ERROR''
       \<and> reference_type (missing_bean_annotation p n c) = ''SPRING_BEAN''
       \<and> source_file (missing_bean_annotation p n c) = p
       \<and> line_number (missing_bean_annotation p n c) = n
       \<and> target (missing_bean_annotation p n c) = c
       \<and> actual (missing_bean_annotation p n c) = ''Missing Spring annotation''
       \<and> impact (missing_bean_annotation p n c) = ''Bean not found exception at startup''"
    by (simp add: missing_bean_annotation_def)
  show ?thesis
    using sites unknown unannotated by blast
qed

lemma injection_site_findings_witness:
  "file_inj \<in> set (rglob_java [file_inj]) \<and> contents file_inj = Some text_inj
   \<and> match_inj \<in> set (re_finditer rx_autowired text_inj)
   \<and> internal (resolve_base_type text_inj match_inj)
   \<and> has_key (class_registry v_plain_b) (resolve_base_type text_inj match_inj)
   \<and> missing_bean_annotation ''/r/services/a/I.java'' 1 ''com.waqiti.x.B''
       \<in> set (check_bean v_plain_b (path file_inj) text_inj match_inj)"
proof -
  have h1: "file_inj \<in> set (rglob_java [file_inj])" by code_simp
  have h2: "contents file_inj = Some text_inj" by (simp add: file_inj_def)
  have h3: "match_inj \<in> set (re_finditer rx_autowired text_inj)" by code_simp
  have r: "resolve_base_type text_inj match_inj = ''com.waqiti.x.B''" by code_simp
  have h4: "internal (resolve_base_type text_inj match_inj)" unfolding r by code_simp
  have k: "has_key (class_registry v_plain_b) ''com.waqiti.x.B''"
    by (simp add: v_plain_b_def has_key_def)
  have c: "count_nl (take (m_start match_inj) text_inj) = 0" by code_simp
  have n: "component_classes v_plain_b = [] \<and> service_classes v_plain_b = []
             \<and> repository_classes v_plain_b = []"
    by (simp add: v_plain_b_def init_validator_def)
  have p: "path file_inj = ''/r/services/a/I.java''" by (simp add: file_inj_def)
  show ?thesis
    using injection_site_findings [OF h1 h2 h3 h4, where v = v_plain_b] h1 h2 h3 h4 k n
    by (simp add: r c p)
qed

lemma beans_run_phases:
  "missing_beans (report (run_phases so tree))
     = concat (map (beans_of_file (scan_all_classes tree init_validator)) (rglob_java tree))"
  by (simp add: run_phases_eq)

lemma scan_one_space: "scan_all_classes [file_bean_b, file_one_space] init_validator = v_bean_tree"
  by code_simp

lemma scan_two_spaces: "scan_all_classes [file_bean_b, file_two_spaces] init_validator = v_bean_tree"
  by code_simp

lemma no_site_one_space: "re_finditer rx_autowired text_one_space = []" by code_simp

lemma beans_one_space:
  "concat (map (beans_of_file v_bean_tree) (rglob_java [file_bean_b, file_one_space])) = []"
  by code_simp

lemma beans_two_spaces:
  "concat (map (beans_of_file v_bean_tree) (rglob_java [file_bean_b, file_two_spaces]))
     = [missing_bean_annotation ''/r/services/a/A.java'' 1 ''com.waqiti.x.B'']"
  by code_simp

text \<open>
  Claim C4 breaks at an injection site written with a single space and no modifier. The
  pattern makes the modifier optional but still asks for white space both before and
  after it, so \<^verbatim>\<open>@Autowired B b;\<close> is not a match. The injected class \<^verbatim>\<open>com.waqiti.x.B\<close>
  is registered and is in none of the component, service and repository sets, yet the run
  reports no missing bean; with two spaces after the annotation the same field is reported
  as lacking its annotation.
\<close>

theorem single_space_injection_site_missed:
  "re_finditer rx_autowired text_one_space = []
   \<and> has_key (class_registry (scan_all_classes [file_bean_b, file_one_space] init_validator))
        ''com.waqiti.x.B''
   \<and> ''com.waqiti.x.B''
        \<notin> set (component_classes (scan_all_classes [file_bean_b, file_one_space] init_validator))
   \<and> ''com.waqiti.x.B''
        \<notin> set (service_classes (scan_all_classes [file_bean_b, file_one_space] init_validator))
   \<and> ''com.waqiti.x.B''
        \<notin> set (repository_classes (scan_all_classes [file_bean_b, file_one_space] init_validator))
   \<and> missing_beans (report (run_phases (\<lambda>xs. xs) [file_bean_b, file_one_space])) = []
   \<and> missing_beans (report (run_phases (\<lambda>xs. xs) [file_bean_b, file_two_spaces]))
       = [missing_bean_annotation ''/r/services/a/A.java'' 1 ''com.waqiti.x.B'']"
proof -
  have k: "has_key (class_registry v_bean_tree) ''com.waqiti.x.B''"
    by (simp add: v_bean_tree_def has_key_def)
  have n: "''com.waqiti.x.B'' \<notin> set (component_classes v_bean_tree)
         \<and> ''com.waqiti.x.B'' \<notin> set (service_classes v_bean_tree)
         \<and> ''com.waqiti.x.B'' \<notin> set (repository_classes v_bean_tree)"
    by (simp add: v_bean_tree_def)
  have a: "missing_beans (report (run_phases (\<lambda>xs. xs) [file_bean_b, file_one_space])) = []"
    unfolding beans_run_phases scan_one_space by (rule beans_one_space)
  have b: "missing_beans (report (run_phases (\<lambda>xs. xs) [file_bean_b, file_two_spaces]))
       = [missing_bean_annotation ''/r/services/a/A.java'' 1 ''com.waqiti.x.B'']"
    unfolding beans_run_phases scan_two_spaces by (rule beans_two_spaces)
  show ?thesis
    unfolding scan_one_space using no_site_one_space k n a b by blast
qed

subsection \<open>Feign clients\<close>

lemma startswith_append: "startswith s (a @ b) \<Longrightarrow> startswith s a"
  by (induction s a rule: startswith.induct) auto

lemma endswith_dot: "endswith cls (''.'' @ name) \<Longrightarrow> endswith cls name"
  by (simp add: endswith_def startswith_append)
















subsection \<open>Call sites\<close>

lemma check_call_in_report:
  assumes "f \<in> set (rglob_java tree)" and "contents f = Some text"
    and "pc \<in> set service_patterns" and "m \<in> set (re_finditer (rx_call (fst pc)) text)"
  shows "set (check_call so v (path f) text (snd pc) m)
       \<subseteq> set (broken_method_calls (report (validate_method_calls so tree v)))"
proof -
  have "set (check_call so v (path f) text (snd pc) m)
      \<subseteq> set (calls_of_pattern so v (path f) text pc)"
    using assms(4) by (auto simp: calls_of_pattern_def)
  also have "\<dots> \<subseteq> set (calls_of_file so v f)"
    using assms(2,3) by (auto simp: calls_of_file_def)
  also have "\<dots> \<subseteq> set (concat (map (calls_of_file so v) (rglob_java tree)))"
    using assms(1) by (rule set_concat_map_member)
  finally show ?thesis
    by (auto simp: validate_method_calls_def)
qed

lemma startswith_iff: "startswith s p \<longleftrightarrow> (\<exists>post. s = p @ post)"
  by (induction s p rule: startswith.induct) auto

lemma contains_iff: "contains sub s \<longleftrightarrow> (\<exists>pre post. s = pre @ sub @ post)"
proof (induction s)
  case Nil
  then show ?case by simp
next
  case (Cons x xs)
  show ?case
  proof
    assume "contains sub (x # xs)"
    then consider "startswith (x # xs) sub" | "contains sub xs"
      by auto
    then show "\<exists>pre post. x # xs = pre @ sub @ post"
    proof cases
      case 1
      then obtain post where "x # xs = sub @ post"
        using startswith_iff by blast
      then have "x # xs = [] @ sub @ post" by simp
      then show ?thesis by blast
    next
      case 2
      then obtain pre post where "xs = pre @ sub @ post"
        using Cons.IH by blast
      then have "x # xs = (x # pre) @ sub @ post" by simp
      then show ?thesis by blast
    qed
  next
    assume "\<exists>pre post. x # xs = pre @ sub @ post"
    then obtain pre post where e: "x # xs = pre @ sub @ post"
      by blast
    show "contains sub (x # xs)"
    proof (cases pre)
      case Nil
      then have "startswith (x # xs) sub"
        using e startswith_iff by auto
      then show ?thesis by simp
    next
      case (Cons y pre')
      then have "xs = pre' @ sub @ post"
        using e by simp
      then have "contains sub xs"
        using Cons.IH by blast
      then show ?thesis by simp
    qed
  qed
qed

lemma join_member: "x \<in> set xs \<Longrightarrow> \<exists>pre post. join sep xs = pre @ x @ post"
proof (induction sep xs rule: join.induct)
  case (1 sep)
  then show ?case by simp
next
  case (2 sep y)
  then have "join sep [y] = [] @ x @ []" by simp
  then show ?case by blast
next
  case (3 sep y z zs)
  show ?case
  proof (cases "x = y")
    case True
    then have "join sep (y # z # zs) = [] @ x @ (sep @ join sep (z # zs))" by simp
    then show ?thesis by blast
  next
    case False
    then have "x \<in> set (z # zs)"
      using "3.prems" by simp
    then obtain pre post where "join sep (z # zs) = pre @ x @ post"
      using "3.IH" by blast
    then have "join sep (y # z # zs) = (y @ sep @ pre) @ x @ post" by simp
    then show ?thesis by blast
  qed
qed

lemma contains_in_listing:
  assumes "x \<in> set xs"
  shows "contains x (a @ join sep xs @ b)"
proof -
  obtain pre post where "join sep xs = pre @ x @ post"
    using join_member [OF assms] by blast
  then have "a @ join sep xs @ b = (a @ pre) @ x @ (post @ b)" by simp
  then show ?thesis
    unfolding contains_iff by blast
qed

lemma sample_of_methods:
  assumes "\<forall>xs. mset (so xs) = mset xs"
  shows "length (take 5 (so ms)) = min 5 (length ms)"
    and "set (take 5 (so ms)) \<subseteq> set ms"
    and "distinct ms \<Longrightarrow> distinct (take 5 (so ms))"
proof -
  have m: "mset (so ms) = mset ms"
    using assms by simp
  then have "length (so ms) = length ms"
    by (rule mset_eq_length)
  then show "length (take 5 (so ms)) = min 5 (length ms)"
    by (simp add: min.commute)
  have "set (so ms) = set ms"
    using m by (rule mset_eq_setD)
  then show "set (take 5 (so ms)) \<subseteq> set ms"
    using set_take_subset by fastforce
  show "distinct ms \<Longrightarrow> distinct (take 5 (so ms))"
    using m by (metis distinct_take mset_eq_imp_distinct_iff)
qed

text \<open>
  Claim C6. For every match of a catalogue pattern in a readable file: when the expected
  class is not a key of the registry the call site yields nothing; when it is and the
  method name is in the class's method set it yields nothing; when it is and the method
  name is not in the set it yields exactly one finding of severity \<^verbatim>\<open>ERROR\<close>, whose
  target and expected text contain the expected class, and whose actual text lists the
  first five known methods of the class in the order of iteration (all of them when
  there are at most five), each of them occurring in that text.
\<close>

theorem call_site_findings:
  assumes "f \<in> set (rglob_java tree)" and "contents f = Some text"
    and "pc \<in> set service_patterns" and "m \<in> set (re_finditer (rx_call (fst pc)) text)"
    and "\<forall>xs. mset (so xs) = mset xs"
  shows "set (check_call so v (path f) text (snd pc) m)
           \<subseteq> set (broken_method_calls (report (validate_method_calls so tree v)))
       \<and> (\<not> has_key (class_registry v) (snd pc)
            \<longrightarrow> check_call so v (path f) text (snd pc) m = [])
       \<and> (has_key (class_registry v) (snd pc)
            \<and> group_str m 1 \<in> set (get_set (class_methods v) (snd pc))
            \<longrightarrow> check_call so v (path f) text (snd pc) m = [])
       \<and> (has_key (class_registry v) (snd pc)
            \<and> group_str m 1 \<notin> set (get_set (class_methods v) (snd pc))
            \<longrightarrow> (\<exists>b. check_call so v (path f) text (snd pc) m = [b]
                   \<and> severity b = ''ERROR''
                   \<and> reference_type b = ''METHOD_CALL''
                   \<and> source_file b = path f
                   \<and> line_number b = count_nl (take (m_start m) text) + 1
                   \<and> target b = snd pc @ ''.'' @ group_str m 1
                   \<and> expected b = ''Method '' @ group_str m 1 @ '' should exist in '' @ snd pc
                   \<and> actual b = ''Method not found. Available methods: ''
                        @ join '', '' (take 5 (so (get_set (class_methods v) (snd pc)))) @ ''...''
                   \<and> impact b = ''Runtime error or compilation failure''
                   \<and> (\<forall>x \<in> set (take 5 (so (get_set (class_methods v) (snd pc)))).
                         contains x (actual b) \<and> x \<in> set (get_set (class_methods v) (snd pc)))
                   \<and> length (take 5 (so (get_set (class_methods v) (snd pc))))
                       = min 5 (length (get_set (class_methods v) (snd pc)))
                   \<and> contains (snd pc) (target b) \<and> contains (snd pc) (expected b)))"
proof -
  let ?ms = "get_set (class_methods v) (snd pc)"
  let ?b = "broken_call so v (path f) (count_nl (take (m_start m) text) + 1) (snd pc) (group_str m 1)"
  have a: "actual ?b = ''Method not found. Available methods: ''
                        @ join '', '' (take 5 (so ?ms)) @ ''...''"
    by (simp add: broken_call_def)
  have s: "\<forall>x \<in> set (take 5 (so ?ms)). contains x (actual ?b) \<and> x \<in> set ?ms"
  proof (intro ballI conjI)
    fix x
    assume x: "x \<in> set (take 5 (so ?ms))"
    show "contains x (actual ?b)"
      unfolding a using x by (rule contains_in_listing)
    show "x \<in> set ?ms"
      using x sample_of_methods(2) [OF assms(5), of ?ms] by blast
  qed
  have t: "contains (snd pc) (target ?b)"
  proof -
    have "target ?b = [] @ snd pc @ (''.'' @ group_str m 1)"
      by (simp add: broken_call_def)
    then show ?thesis
      unfolding contains_iff by blast
  qed
  have e: "contains (snd pc) (expected ?b)"
  proof -
    have "expected ?b = (''Method '' @ group_str m 1 @ '' should exist in '') @ snd pc @ []"
      by (simp add: broken_call_def)
    then show ?thesis
      unfolding contains_iff by blast
  qed
  have f: "severity ?b = ''ERROR'' \<and> reference_type ?b = ''METHOD_CALL''
      \<and> source_file ?b = path f
      \<and> line_number ?b = count_nl (take (m_start m) text) + 1
      \<and> target ?b = snd pc @ ''.'' @ group_str m 1
      \<and> expected ?b = ''Method '' @ group_str m 1 @ '' should exist in '' @ snd pc
      \<and> impact ?b = ''Runtime error or compilation failure''"
    by (simp add: broken_call_def)
  have 4: "has_key (class_registry v) (snd pc) \<and> group_str m 1 \<notin> set ?ms
            \<longrightarrow> check_call so v (path f) text (snd pc) m = [?b]"
    by (simp add: check_call_def Let_def)
  have 1: "\<not> has_key (class_registry v) (snd pc)
            \<longrightarrow> check_call so v (path f) text (snd pc) m = []"
    by (simp add: check_call_def Let_def)
  have 2: "has_key (class_registry v) (snd pc) \<and> group_str m 1 \<in> set ?ms
            \<longrightarrow> check_call so v (path f) text (snd pc) m = []"
    by (simp add: check_call_def Let_def)
  show ?thesis
    using check_call_in_report [OF assms(1-4), of so v] 1 2 4 a s t e f
      sample_of_methods(1) [OF assms(5), of ?ms]
    by blast
qed

theorem call_site_findings_witness:
  "file_call \<in> set (rglob_java [file_call]) \<and> contents file_call = Some text_call
   \<and> (''walletService'', ''com.waqiti.wallet.service.WalletService'') \<in> set service_patterns
   \<and> match_pay \<in> set (re_finditer (rx_call ''walletService'') text_call)
   \<and> (\<forall>xs :: string list. mset (rev xs) = mset xs)
   \<and> has_key (class_registry v_wallet) ''com.waqiti.wallet.service.WalletService''
   \<and> group_str match_pay 1 \<notin> set (get_set (class_methods v_wallet)
                                       ''com.waqiti.wallet.service.WalletService'')
   \<and> check_call rev v_wallet (path file_call) text_call
        ''com.waqiti.wallet.service.WalletService'' match_pay
      = [\<lparr>source_file = ''/r/services/a/P.java'', line_number = 1,
           reference_type = ''METHOD_CALL'',
           target = ''com.waqiti.wallet.service.WalletService.pay'',
           expected = ''Method pay should exist in com.waqiti.wallet.service.WalletService'',
           actual = ''Method not found. Available methods: credit, debit...'',
           severity = ''ERROR'', impact = ''Runtime error or compilation failure'',
           recommended_fix =
             ''Implement pay in com.waqiti.wallet.service.WalletService or fix method name''\<rparr>]
   \<and> broken_method_calls (report (validate_method_calls rev [file_call] v_wallet))
      = check_call rev v_wallet (path file_call) text_call
          ''com.waqiti.wallet.service.WalletService'' match_pay"
proof -
  have h1: "file_call \<in> set (rglob_java [file_call])" by code_simp
  have h2: "contents file_call = Some text_call" by (simp add: file_call_def)
  have h3: "(''walletService'', ''com.waqiti.wallet.service.WalletService'') \<in> set service_patterns"
    by (simp add: service_patterns_def)
  have h4: "match_pay \<in> set (re_finditer
              (rx_call (fst (''walletService'', ''com.waqiti.wallet.service.WalletService''))) text_call)"
    by code_simp
  have h5: "\<forall>xs :: string list. mset (rev xs) = mset xs" by simp
  have k: "has_key (class_registry v_wallet) ''com.waqiti.wallet.service.WalletService''"
    by (simp add: v_wallet_def has_key_def)
  have n: "group_str match_pay 1 \<notin> set (get_set (class_methods v_wallet)
                                       ''com.waqiti.wallet.service.WalletService'')"
    by code_simp
  have c: "check_call rev v_wallet (path file_call) text_call
        ''com.waqiti.wallet.service.WalletService'' match_pay
      = [\<lparr>source_file = ''/r/services/a/P.java'', line_number = 1,
           reference_type = ''METHOD_CALL'',
           target = ''com.waqiti.wallet.service.WalletService.pay'',
           expected = ''Method pay should exist in com.waqiti.wallet.service.WalletService'',
           actual = ''Method not found. Available methods: credit, debit...'',
           severity = ''ERROR'', impact = ''Runtime error or compilation failure'',
           recommended_fix =
             ''Implement pay in com.waqiti.wallet.service.WalletService or fix method name''\<rparr>]"
    by code_simp
  have r: "broken_method_calls (report (validate_method_calls rev [file_call] v_wallet))
      = check_call rev v_wallet (path file_call) text_call
          ''com.waqiti.wallet.service.WalletService'' match_pay"
    unfolding c by code_simp
  have "set (check_call rev v_wallet (path file_call) text_call
          (snd (''walletService'', ''com.waqiti.wallet.service.WalletService'')) match_pay)
      \<subseteq> set (broken_method_calls (report (validate_method_calls rev [file_call] v_wallet)))"
    using call_site_findings [OF h1 h2 h3 h4 h5, of v_wallet] by blast
  then show ?thesis
    using h1 h2 h3 h4 h5 k n c r by simp
qed

section \<open>Circular dependencies\<close>

subsection \<open>The dependency graph\<close>

lemma get_set_dict_set_add:
  "get_set (dict_set_add k x d) k' = (if k' = k then set_add x (get_set d k) else get_set d k')"
  by (simp add: get_set_def dict_set_add_def update_conv')

lemma get_set_Nil: "get_set [] k = []"
  by (simp add: get_set_def)

lemma set_set_add: "set (set_add x xs) = insert x (set xs)"
  by (auto simp: set_add_def)

lemma distinct_set_add: "distinct xs \<Longrightarrow> distinct (set_add x xs)"
  by (simp add: set_add_def)

lemma distinct_keys_add_import:
  "distinct (map fst d) \<Longrightarrow> distinct (map fst (add_import v a b d))"
  by (simp add: add_import_def dict_set_add_def distinct_update)

lemma distinct_values_add_import:
  "\<forall>k. distinct (get_set d k) \<Longrightarrow> \<forall>k. distinct (get_set (add_import v a b d) k)"
  by (simp add: add_import_def get_set_dict_set_add distinct_set_add)

lemma set_get_set_add_import:
  "set (get_set (add_import v a b d) k)
     = set (get_set d k)
       \<union> (if k = a \<and> internal b \<and> has_key (class_registry v) b then {b} else {})"
  by (simp add: add_import_def get_set_dict_set_add set_set_add)

lemma fold_add_import:
  "(distinct (map fst d) \<longrightarrow> distinct (map fst (fold (add_import v a) bs d)))
   \<and> ((\<forall>k. distinct (get_set d k)) \<longrightarrow> (\<forall>k. distinct (get_set (fold (add_import v a) bs d) k)))
   \<and> (\<forall>k. set (get_set (fold (add_import v a) bs d) k)
          = set (get_set d k)
            \<union> (if k = a then {b \<in> set bs. internal b \<and> has_key (class_registry v) b} else {}))"
proof (induction bs arbitrary: d)
  case Nil
  then show ?case by simp
next
  case (Cons b bs)
  show ?case
    using Cons.IH [of "add_import v a b d"]
      distinct_keys_add_import [of d v a b] distinct_values_add_import [of d v a b]
    by (auto simp: set_get_set_add_import)
qed

text \<open>The edge a file contributes: its own class imports an internal, registered name.\<close>

lemma add_file_dependencies_props:
  "(distinct (map fst d) \<longrightarrow> distinct (map fst (add_file_dependencies v f d)))
   \<and> ((\<forall>k. distinct (get_set d k)) \<longrightarrow> (\<forall>k. distinct (get_set (add_file_dependencies v f d) k)))
   \<and> (\<forall>a b. b \<in> set (get_set (add_file_dependencies v f d) a)
          \<longleftrightarrow> b \<in> set (get_set d a)
              \<or> (\<exists>text. contents f = Some text \<and> current_fqn text = Some a
                    \<and> b \<in> set (imported_names text) \<and> internal b
                    \<and> has_key (class_registry v) b))"
proof (cases "contents f")
  case None
  then show ?thesis by (simp add: add_file_dependencies_def)
next
  case (Some t)
  note readable = this
  show ?thesis
  proof (cases "current_fqn t")
    case None
    then show ?thesis using readable by (simp add: add_file_dependencies_def)
  next
    case (Some fqn)
    then show ?thesis
      using readable fold_add_import [of d v fqn "imported_names t"]
      by (auto simp: add_file_dependencies_def)
  qed
qed

lemma fold_add_file_dependencies:
  "(distinct (map fst d) \<longrightarrow> distinct (map fst (fold (add_file_dependencies v) fs d)))
   \<and> ((\<forall>k. distinct (get_set d k))
        \<longrightarrow> (\<forall>k. distinct (get_set (fold (add_file_dependencies v) fs d) k)))
   \<and> (\<forall>a b. b \<in> set (get_set (fold (add_file_dependencies v) fs d) a)
          \<longleftrightarrow> b \<in> set (get_set d a)
              \<or> (\<exists>f \<in> set fs. \<exists>text. contents f = Some text \<and> current_fqn text = Some a
                    \<and> b \<in> set (imported_names text) \<and> internal b
                    \<and> has_key (class_registry v) b))"
proof (induction fs arbitrary: d)
  case Nil
  then show ?case by simp
next
  case (Cons f fs)
  note step = add_file_dependencies_props [of d v f]
  note ih = Cons.IH [of "add_file_dependencies v f d"]
  have "distinct (map fst d) \<longrightarrow> distinct (map fst (fold (add_file_dependencies v) (f # fs) d))"
    using step ih by simp
  moreover have "(\<forall>k. distinct (get_set d k))
        \<longrightarrow> (\<forall>k. distinct (get_set (fold (add_file_dependencies v) (f # fs) d) k))"
    using step ih by simp
  moreover have "\<forall>a b. b \<in> set (get_set (fold (add_file_dependencies v) (f # fs) d) a)
          \<longleftrightarrow> b \<in> set (get_set d a)
              \<or> (\<exists>g \<in> set (f # fs). \<exists>text. contents g = Some text \<and> current_fqn text = Some a
                    \<and> b \<in> set (imported_names text) \<and> internal b
                    \<and> has_key (class_registry v) b)"
    using step ih by (simp only: fold_simps set_simps bex_simps insert_iff) blast
  ultimately show ?case by blast
qed

lemma build_dependencies_props:
  "distinct (map fst (build_dependencies v tree))"
  "distinct (get_set (build_dependencies v tree) k)"
  "b \<in> set (get_set (build_dependencies v tree) a)
     \<longleftrightarrow> (\<exists>f \<in> set (rglob_java tree). \<exists>text. contents f = Some text
            \<and> current_fqn text = Some a \<and> b \<in> set (imported_names text)
            \<and> internal b \<and> has_key (class_registry v) b)"
  using fold_add_file_dependencies [of "[]" v "rglob_java tree"]
  by (simp_all add: build_dependencies_def get_set_Nil)

subsection \<open>Counting the reported pairs\<close>

lemma count_list_concat:
  "count_list (concat xss) x = sum_list (map (\<lambda>xs. count_list xs x) xss)"
  by (induction xss) simp_all

lemma count_list_guarded:
  "count_list (concat (map (\<lambda>c. if P c then [(a', c)] else []) ys)) (a, b)
     = (if a' = a \<and> P b then count_list ys b else 0)"
  by (induction ys) auto

lemma count_cycles_of:
  "count_list (cycles_of so d item) (a, b)
     = (if fst item = a \<and> a \<in> set (get_set d b) then count_list (so (snd item)) b else 0)"
  unfolding cycles_of_def by (auto simp: count_list_guarded)

lemma sum_list_key:
  assumes "distinct (map fst d)"
  shows "sum_list (map (\<lambda>item. if fst item = a then g (snd item) else (0::nat)) d)
       = (case map_of d a of None \<Rightarrow> 0 | Some xs \<Rightarrow> g xs)"
  using assms
proof (induction d)
  case Nil
  then show ?case by simp
next
  case (Cons kv d)
  show ?case
  proof (cases "fst kv = a")
    case True
    then have "map_of d a = None"
      using Cons.prems by (simp add: map_of_eq_None_iff)
    then show ?thesis
      using True Cons by (cases kv) simp
  next
    case False
    then show ?thesis
      using Cons by (cases kv) simp
  qed
qed

lemma count_list_so:
  assumes "\<forall>xs. mset (so xs) = mset xs" and "distinct xs"
  shows "count_list (so xs) b = (if b \<in> set xs then 1 else 0)"
proof -
  have "count_list (so xs) b = count (mset (so xs)) b"
    by (simp only: count_mset)
  also have "\<dots> = count (mset xs) b"
    using assms(1) by simp
  also have "\<dots> = (if b \<in> set xs then 1 else 0)"
    using assms(2) by (simp add: distinct_count_atmost_1)
  finally show ?thesis .
qed

lemma count_cycle_pairs:
  assumes "distinct (map fst d)" and "\<forall>k. distinct (get_set d k)"
    and "\<forall>xs. mset (so xs) = mset xs"
  shows "count_list (cycle_pairs so d) (a, b)
       = (if b \<in> set (get_set d a) \<and> a \<in> set (get_set d b) then 1 else 0)"
proof (cases "a \<in> set (get_set d b)")
  case False
  then show ?thesis
    by (simp add: cycle_pairs_def count_list_concat comp_def count_cycles_of)
next
  case True
  have "count_list (cycle_pairs so d) (a, b)
      = sum_list (map (\<lambda>item. if fst item = a then count_list (so (snd item)) b else 0) d)"
    using True by (simp add: cycle_pairs_def count_list_concat comp_def count_cycles_of)
  also have "\<dots> = (case map_of d a of None \<Rightarrow> 0 | Some xs \<Rightarrow> count_list (so xs) b)"
    by (rule sum_list_key [OF assms(1)])
  also have "\<dots> = (if b \<in> set (get_set d a) then 1 else 0)"
  proof (cases "map_of d a")
    case None
    then show ?thesis by (simp add: get_set_def)
  next
    case (Some xs)
    then have "get_set d a = xs"
      by (simp add: get_set_def)
    then have "distinct xs"
      using assms(2) by metis
    then show ?thesis
      using Some \<open>get_set d a = xs\<close> count_list_so [OF assms(3)] by simp
  qed
  finally show ?thesis
    using True by simp
qed

lemma length_filter_two:
  assumes "x \<noteq> y"
  shows "length (filter (\<lambda>p. p = x \<or> p = y) ps) = count_list ps x + count_list ps y"
  using assms by (induction ps) auto

lemma count_reported_pair:
  assumes "\<forall>xs. mset (so xs) = mset xs" and "circular_dependencies (report v) = []"
  shows "count_list (circular_dependencies (report (detect_circular_dependencies so tree v))) (a, b)
       = (if b \<in> set (get_set (build_dependencies v tree) a)
            \<and> a \<in> set (get_set (build_dependencies v tree) b) then 1 else 0)"
  using assms(2)
  by (simp add: detect_circular_dependencies_def
      count_cycle_pairs [OF build_dependencies_props(1) _ assms(1)] build_dependencies_props(2))

text \<open>
  Claim C1, amended. For two distinct classes \<open>A\<close> and \<open>B\<close> whose names contain the internal
  prefix, both keys of the registry, such that the file of \<open>A\<close> imports \<open>B\<close> and the file of
  \<open>B\<close> imports \<open>A\<close>: each of the ordered pairs \<open>(A, B)\<close> and \<open>(B, A)\<close> is listed exactly
  once, so the unordered pair has exactly two entries. This holds for every order of the
  files in the tree and every order of iteration over the sets.
\<close>

theorem mutual_import_reported_in_both_orders:
  assumes "\<forall>xs. mset (so xs) = mset xs"
    and "circular_dependencies (report v) = []"
    and "fa \<in> set (rglob_java tree)" and "contents fa = Some ta"
    and "current_fqn ta = Some A" and "B \<in> set (imported_names ta)"
    and "fb \<in> set (rglob_java tree)" and "contents fb = Some tb"
    and "current_fqn tb = Some B" and "A \<in> set (imported_names tb)"
    and "A \<noteq> B" and "internal A" and "internal B"
    and "has_key (class_registry v) A" and "has_key (class_registry v) B"
  shows "count_list (circular_dependencies (report (detect_circular_dependencies so tree v))) (A, B) = 1
       \<and> count_list (circular_dependencies (report (detect_circular_dependencies so tree v))) (B, A) = 1
       \<and> length (filter (\<lambda>p. p = (A, B) \<or> p = (B, A))
                   (circular_dependencies (report (detect_circular_dependencies so tree v)))) = 2"
proof -
  have ab: "B \<in> set (get_set (build_dependencies v tree) A)"
    unfolding build_dependencies_props(3) using assms(3-6,13,15) by blast
  have ba: "A \<in> set (get_set (build_dependencies v tree) B)"
    unfolding build_dependencies_props(3) using assms(7-10,12,14) by blast
  have 1: "count_list (circular_dependencies (report (detect_circular_dependencies so tree v))) (A, B) = 1"
    using ab ba by (simp add: count_reported_pair [OF assms(1,2)])
  have 2: "count_list (circular_dependencies (report (detect_circular_dependencies so tree v))) (B, A) = 1"
    using ab ba by (simp add: count_reported_pair [OF assms(1,2)])
  have "(A, B) \<noteq> (B, A)"
    using assms(11) by simp
  then show ?thesis
    using 1 2 by (simp add: length_filter_two)
qed

text \<open>
  Claim C10, amended. If the file whose class is \<open>A\<close> imports \<open>A\<close> itself, \<open>A\<close> is a key of
  the registry and its name contains the internal prefix, then the self-pair \<open>(A, A)\<close> is
  listed (exactly once).
\<close>

theorem self_import_reported:
  assumes "\<forall>xs. mset (so xs) = mset xs"
    and "circular_dependencies (report v) = []"
    and "f \<in> set (rglob_java tree)" and "contents f = Some text"
    and "current_fqn text = Some A" and "A \<in> set (imported_names text)"
    and "internal A" and "has_key (class_registry v) A"
  shows "(A, A) \<in> set (circular_dependencies (report (detect_circular_dependencies so tree v)))
       \<and> count_list (circular_dependencies (report (detect_circular_dependencies so tree v))) (A, A) = 1"
proof -
  have "A \<in> set (get_set (build_dependencies v tree) A)"
    unfolding build_dependencies_props(3) using assms(3-8) by blast
  then have "count_list (circular_dependencies (report (detect_circular_dependencies so tree v))) (A, A) = 1"
    by (simp add: count_reported_pair [OF assms(1,2)])
  then show ?thesis
    by (metis count_list_0_iff zero_neq_one)
qed

lemma class_registry_scan_file:
  "class_registry (scan_file f v)
     = (case contents f of
          None \<Rightarrow> class_registry v
        | Some t \<Rightarrow> (case current_fqn t of
                       None \<Rightarrow> class_registry v
                     | Some fqn \<Rightarrow> AList.update fqn (path f) (class_registry v)))"
  by (simp add: scan_file_def current_fqn_def Let_def split: option.splits)

lemma endswith_java_a: "endswith ''/r/services/a/A.java'' ''.java''" by code_simp
lemma endswith_java_b: "endswith ''/r/services/b/B.java'' ''.java''" by code_simp

lemma current_fqn_a: "current_fqn text_a = Some ''com.waqiti.x.A''" by code_simp
lemma current_fqn_b: "current_fqn text_b = Some ''com.waqiti.x.B''" by code_simp
lemma imported_names_a: "imported_names text_a = [''com.waqiti.x.B'']" by code_simp
lemma imported_names_b: "imported_names text_b = [''com.waqiti.x.A'']" by code_simp
lemma internal_a: "internal ''com.waqiti.x.A''" by code_simp
lemma internal_b: "internal ''com.waqiti.x.B''" by code_simp

lemma current_fqn_self: "current_fqn text_self = Some ''com.waqiti.x.A''" by code_simp
lemma imported_names_self: "imported_names text_self = [''com.waqiti.x.A'']" by code_simp

lemma current_fqn_ext: "current_fqn text_ext = Some ''org.demo.A''" by code_simp
lemma imported_names_ext: "imported_names text_ext = [''org.demo.A'']" by code_simp
lemma not_internal_ext: "\<not> internal ''org.demo.A''" by code_simp

lemma rglob_tree_ab: "rglob_java tree_ab = [file_a, file_b]"
  by (simp add: rglob_java_def tree_ab_def file_a_def file_b_def endswith_java_a endswith_java_b)

lemma rglob_tree_self: "rglob_java tree_self = [file_self]"
  by (simp add: rglob_java_def tree_self_def file_self_def endswith_java_a)

lemma rglob_tree_ext: "rglob_java tree_ext = [file_ext]"
  by (simp add: rglob_java_def tree_ext_def file_ext_def endswith_java_a)

lemma registry_tree_ab:
  "class_registry (scan_all_classes tree_ab init_validator)
     = [(''com.waqiti.x.A'', ''/r/services/a/A.java''), (''com.waqiti.x.B'', ''/r/services/b/B.java'')]"
  unfolding scan_all_classes_def rglob_tree_ab
  by (simp add: class_registry_scan_file file_a_def file_b_def
      current_fqn_a current_fqn_b init_validator_def)

lemma registry_tree_self:
  "class_registry (scan_all_classes tree_self init_validator)
     = [(''com.waqiti.x.A'', ''/r/services/a/A.java'')]"
  unfolding scan_all_classes_def rglob_tree_self
  by (simp add: class_registry_scan_file file_self_def current_fqn_self init_validator_def)

lemma registry_tree_ext:
  "class_registry (scan_all_classes tree_ext init_validator)
     = [(''org.demo.A'', ''/r/services/a/A.java'')]"
  unfolding scan_all_classes_def rglob_tree_ext
  by (simp add: class_registry_scan_file file_ext_def current_fqn_ext init_validator_def)

lemma circular_run_phases:
  "circular_dependencies (report (run_phases so tree))
     = cycle_pairs so (build_dependencies (scan_all_classes tree init_validator) tree)"
  by (simp add: run_phases_eq)

text \<open>
  Claim C1, as stated, fails. Two files whose classes import each other, both registered:
  the list of circular dependencies holds the pair in both orders, so the unordered pair
  has two entries and not one.
\<close>

theorem mutual_import_listed_twice:
  "current_fqn text_a = Some ''com.waqiti.x.A'' \<and> ''com.waqiti.x.B'' \<in> set (imported_names text_a)
   \<and> current_fqn text_b = Some ''com.waqiti.x.B'' \<and> ''com.waqiti.x.A'' \<in> set (imported_names text_b)
   \<and> has_key (class_registry (scan_all_classes tree_ab init_validator)) ''com.waqiti.x.A''
   \<and> has_key (class_registry (scan_all_classes tree_ab init_validator)) ''com.waqiti.x.B''
   \<and> circular_dependencies (report (run_phases (\<lambda>xs. xs) tree_ab))
       = [(''com.waqiti.x.A'', ''com.waqiti.x.B''), (''com.waqiti.x.B'', ''com.waqiti.x.A'')]
   \<and> length (filter (\<lambda>p. p = (''com.waqiti.x.A'', ''com.waqiti.x.B'')
                        \<or> p = (''com.waqiti.x.B'', ''com.waqiti.x.A''))
               (circular_dependencies (report (run_phases (\<lambda>xs. xs) tree_ab)))) \<noteq> 1"
proof -
  have d: "build_dependencies (scan_all_classes tree_ab init_validator) tree_ab
         = [(''com.waqiti.x.A'', [''com.waqiti.x.B'']), (''com.waqiti.x.B'', [''com.waqiti.x.A''])]"
    unfolding build_dependencies_def rglob_tree_ab
    by (simp add: add_file_dependencies_def file_a_def
        file_b_def current_fqn_a current_fqn_b imported_names_a imported_names_b add_import_def
        internal_a internal_b registry_tree_ab has_key_def dict_set_add_def get_set_def
        set_add_def)
  have c: "circular_dependencies (report (run_phases (\<lambda>xs. xs) tree_ab))
       = [(''com.waqiti.x.A'', ''com.waqiti.x.B''), (''com.waqiti.x.B'', ''com.waqiti.x.A'')]"
    by (simp add: circular_run_phases d cycle_pairs_def cycles_of_def get_set_def)
  show ?thesis
    unfolding c
    by (simp add: current_fqn_a current_fqn_b imported_names_a imported_names_b registry_tree_ab
        has_key_def)
qed

text \<open>
  Claim C10, as stated, fails outside the internal namespace: a registered class
  \<^verbatim>\<open>org.demo.A\<close> whose file imports \<^verbatim>\<open>org.demo.A\<close> yields no pair, because only imports
  whose name contains \<^verbatim>\<open>com.waqiti\<close> become edges.
\<close>

theorem external_self_import_not_listed:
  "current_fqn text_ext = Some ''org.demo.A'' \<and> ''org.demo.A'' \<in> set (imported_names text_ext)
   \<and> has_key (class_registry (scan_all_classes tree_ext init_validator)) ''org.demo.A''
   \<and> circular_dependencies (report (run_phases (\<lambda>xs. xs) tree_ext)) = []"
proof -
  have d: "build_dependencies (scan_all_classes tree_ext init_validator) tree_ext = []"
    unfolding build_dependencies_def rglob_tree_ext
    by (simp add: add_file_dependencies_def file_ext_def
        current_fqn_ext imported_names_ext add_import_def not_internal_ext)
  show ?thesis
    by (simp add: circular_run_phases d cycle_pairs_def current_fqn_ext imported_names_ext
        registry_tree_ext has_key_def)
qed

theorem mutual_import_reported_in_both_orders_witness:
  "(\<forall>xs :: string list. mset (rev xs) = mset xs)
   \<and> circular_dependencies (report (scan_all_classes tree_ab init_validator)) = []
   \<and> file_a \<in> set (rglob_java tree_ab) \<and> contents file_a = Some text_a
   \<and> current_fqn text_a = Some ''com.waqiti.x.A'' \<and> ''com.waqiti.x.B'' \<in> set (imported_names text_a)
   \<and> file_b \<in> set (rglob_java tree_ab) \<and> contents file_b = Some text_b
   \<and> current_fqn text_b = Some ''com.waqiti.x.B'' \<and> ''com.waqiti.x.A'' \<in> set (imported_names text_b)
   \<and> ''com.waqiti.x.A'' \<noteq> ''com.waqiti.x.B''
   \<and> internal ''com.waqiti.x.A'' \<and> internal ''com.waqiti.x.B''
   \<and> has_key (class_registry (scan_all_classes tree_ab init_validator)) ''com.waqiti.x.A''
   \<and> has_key (class_registry (scan_all_classes tree_ab init_validator)) ''com.waqiti.x.B''
   \<and> length (filter (\<lambda>p. p = (''com.waqiti.x.A'', ''com.waqiti.x.B'')
                        \<or> p = (''com.waqiti.x.B'', ''com.waqiti.x.A''))
               (circular_dependencies (report (detect_circular_dependencies rev tree_ab
                  (scan_all_classes tree_ab init_validator))))) = 2"
proof -
  have h1: "\<forall>xs :: string list. mset (rev xs) = mset xs" by simp
  have h2: "circular_dependencies (report (scan_all_classes tree_ab init_validator)) = []"
    by (simp add: scan_all_classes_def report_fold_scan init_validator_def empty_report_def)
  have h3: "file_a \<in> set (rglob_java tree_ab)" by (simp add: rglob_tree_ab)
  have h4: "contents file_a = Some text_a" by (simp add: file_a_def)
  have h5: "''com.waqiti.x.B'' \<in> set (imported_names text_a)" by (simp add: imported_names_a)
  have h6: "file_b \<in> set (rglob_java tree_ab)" by (simp add: rglob_tree_ab)
  have h7: "contents file_b = Some text_b" by (simp add: file_b_def)
  have h8: "''com.waqiti.x.A'' \<in> set (imported_names text_b)" by (simp add: imported_names_b)
  have h9: "''com.waqiti.x.A'' \<noteq> ''com.waqiti.x.B''" by simp
  have k1: "has_key (class_registry (scan_all_classes tree_ab init_validator)) ''com.waqiti.x.A''"
    by (simp add: registry_tree_ab has_key_def)
  have k2: "has_key (class_registry (scan_all_classes tree_ab init_validator)) ''com.waqiti.x.B''"
    by (simp add: registry_tree_ab has_key_def)
  note t = mutual_import_reported_in_both_orders [OF h1 h2 h3 h4 current_fqn_a h5 h6 h7
      current_fqn_b h8 h9 internal_a internal_b k1 k2]
  show ?thesis
    using t h1 h2 h3 h4 current_fqn_a h5 h6 h7 current_fqn_b h8 h9 internal_a internal_b k1 k2
    by blast
qed

theorem self_import_reported_witness:
  "(\<forall>xs :: string list. mset (rev xs) = mset xs)
   \<and> circular_dependencies (report (scan_all_classes tree_self init_validator)) = []
   \<and> file_self \<in> set (rglob_java tree_self) \<and> contents file_self = Some text_self
   \<and> current_fqn text_self = Some ''com.waqiti.x.A''
   \<and> ''com.waqiti.x.A'' \<in> set (imported_names text_self)
   \<and> internal ''com.waqiti.x.A''
   \<and> has_key (class_registry (scan_all_classes tree_self init_validator)) ''com.waqiti.x.A''
   \<and> (''com.waqiti.x.A'', ''com.waqiti.x.A'')
       \<in> set (circular_dependencies (report (detect_circular_dependencies rev tree_self
                  (scan_all_classes tree_self init_validator))))"
proof -
  have h1: "\<forall>xs :: string list. mset (rev xs) = mset xs" by simp
  have h2: "circular_dependencies (report (scan_all_classes tree_self init_validator)) = []"
    by (simp add: scan_all_classes_def report_fold_scan init_validator_def empty_report_def)
  have h3: "file_self \<in> set (rglob_java tree_self)" by (simp add: rglob_tree_self)
  have h4: "contents file_self = Some text_self" by (simp add: file_self_def)
  have h5: "''com.waqiti.x.A'' \<in> set (imported_names text_self)" by (simp add: imported_names_self)
  have k: "has_key (class_registry (scan_all_classes tree_self init_validator)) ''com.waqiti.x.A''"
    by (simp add: registry_tree_self has_key_def)
  note t = self_import_reported [OF h1 h2 h3 h4 current_fqn_self h5 internal_a k]
  show ?thesis
    using t h1 h2 h3 h4 current_fqn_self h5 internal_a k by blast
qed

section \<open>The corpus walkers\<close>

subsection \<open>The registry of the deep validator\<close>

lemma update_values:
  "(\<forall>kv \<in> set al. P (snd kv)) \<Longrightarrow> P v \<Longrightarrow> \<forall>kv \<in> set (AList.update k v al). P (snd kv)"
  by (induction al) auto

lemma update_keys:
  "(\<forall>kv \<in> set al. Q (fst kv)) \<Longrightarrow> Q k \<Longrightarrow> \<forall>kv \<in> set (AList.update k v al). Q (fst kv)"
  by (induction al) auto

lemma fold_register_inner_values:
  "(\<forall>kv \<in> set cf. P (snd kv)) \<Longrightarrow> P java_file
     \<Longrightarrow> \<forall>kv \<in> set (fold (register_inner fqn java_file) ms cf). P (snd kv)"
proof (induction ms arbitrary: cf)
  case Nil
  then show ?case by simp
next
  case (Cons m ms)
  have "\<forall>kv \<in> set (register_inner fqn java_file m cf). P (snd kv)"
    unfolding register_inner_def using Cons.prems by (intro update_values)
  then show ?case
    using Cons.IH Cons.prems(2) by simp
qed

lemma register_class_paths:
  assumes "\<forall>kv \<in> set (class_files d). P (snd kv)"
    and "\<forall>kv \<in> set (class_definitions d). P (def_file (snd kv))"
    and "P java_file"
  shows "(\<forall>kv \<in> set (class_files (register_class package java_file t m d)). P (snd kv))
       \<and> (\<forall>kv \<in> set (class_definitions (register_class package java_file t m d)).
             P (def_file (snd kv)))
       \<and> imports_map (register_class package java_file t m d) = imports_map d"
proof -
  have "\<forall>kv \<in> set (AList.update (package @ ''.'' @ group_str m 3) java_file (class_files d)).
          P (snd kv)"
    using assms(1,3) by (intro update_values)
  then have 1: "\<forall>kv \<in> set (class_files (register_class package java_file t m d)). P (snd kv)"
    using assms(3) by (simp add: register_class_def Let_def fold_register_inner_values)
  have 2: "\<forall>kv \<in> set (class_definitions (register_class package java_file t m d)).
             P (def_file (snd kv))"
  proof -
    have "P (def_file \<lparr>def_type = group_str m 2, is_public = truthy (group m 1),
                        def_file = java_file\<rparr>)"
      using assms(3) by simp
    with assms(2)
    have "\<forall>kv \<in> set (AList.update (package @ ''.'' @ group_str m 3)
                        \<lparr>def_type = group_str m 2, is_public = truthy (group m 1),
                          def_file = java_file\<rparr> (class_definitions d)).
            P (def_file (snd kv))"
      by (rule update_values [where P = "\<lambda>c. P (def_file c)"])
    then show ?thesis
      by (simp add: register_class_def Let_def)
  qed
  show ?thesis
    using 1 2 by (simp add: register_class_def Let_def)
qed

lemma fold_register_class_paths:
  assumes "\<forall>kv \<in> set (class_files d). P (snd kv)"
    and "\<forall>kv \<in> set (class_definitions d). P (def_file (snd kv))"
    and "P java_file"
  shows "(\<forall>kv \<in> set (class_files (fold (register_class package java_file t) ms d)). P (snd kv))
       \<and> (\<forall>kv \<in> set (class_definitions (fold (register_class package java_file t) ms d)).
             P (def_file (snd kv)))
       \<and> imports_map (fold (register_class package java_file t) ms d) = imports_map d"
  using assms
proof (induction ms arbitrary: d)
  case Nil
  then show ?case by simp
next
  case (Cons m ms)
  note step = register_class_paths [OF Cons.prems, of package t m]
  show ?case
    using Cons.IH [of "register_class package java_file t m d"] step Cons.prems(3) by simp
qed

lemma fold_register_import_keys:
  "(\<forall>kv \<in> set im. Q (fst kv)) \<Longrightarrow> Q java_file
     \<Longrightarrow> \<forall>kv \<in> set (fold (register_import java_file) ms im). Q (fst kv)"
proof (induction ms arbitrary: im)
  case Nil
  then show ?case by simp
next
  case (Cons m ms)
  have "\<forall>kv \<in> set (register_import java_file m im). Q (fst kv)"
    using Cons.prems update_keys [of im Q java_file]
    by (simp add: register_import_def dict_set_add_def Let_def)
  then show ?case
    using Cons.IH Cons.prems(2) by simp
qed

lemma registry_of_file_paths:
  assumes "\<forall>kv \<in> set (class_files d). \<not> is_test_path (snd kv)"
    and "\<forall>kv \<in> set (class_definitions d). \<not> is_test_path (def_file (snd kv))"
    and "\<forall>kv \<in> set (imports_map d). \<not> is_test_path (fst kv)"
  shows "(\<forall>kv \<in> set (class_files (registry_of_file f d)). \<not> is_test_path (snd kv))
       \<and> (\<forall>kv \<in> set (class_definitions (registry_of_file f d)). \<not> is_test_path (def_file (snd kv)))
       \<and> (\<forall>kv \<in> set (imports_map (registry_of_file f d)). \<not> is_test_path (fst kv))"
proof (cases "is_test_path (path f)")
  case True
  then show ?thesis
    using assms by (simp add: registry_of_file_def)
next
  case False
  show ?thesis
  proof (cases "contents f")
    case None
    then show ?thesis
      using assms by (simp add: registry_of_file_def)
  next
    case (Some t)
    note readable = this
    show ?thesis
    proof (cases "re_search rx_package t")
      case None
      then show ?thesis
        using assms readable by (simp add: registry_of_file_def)
    next
      case (Some pm)
      note classes = fold_register_class_paths [of d "\<lambda>p. \<not> is_test_path p" "path f"
          "group_str pm 1" t "re_finditer rx_deep_class t", OF assms(1,2) False]
      have "\<forall>kv \<in> set (fold (register_import (path f)) (re_finditer rx_import t)
                (imports_map (fold (register_class (group_str pm 1) (path f) t)
                   (re_finditer rx_deep_class t) d))). \<not> is_test_path (fst kv)"
        using classes assms(3) False by (intro fold_register_import_keys) simp_all
      then show ?thesis
        using classes readable Some False by (simp add: registry_of_file_def Let_def)
    qed
  qed
qed

lemma fold_registry_of_file_paths:
  assumes "\<forall>kv \<in> set (class_files d). \<not> is_test_path (snd kv)"
    and "\<forall>kv \<in> set (class_definitions d). \<not> is_test_path (def_file (snd kv))"
    and "\<forall>kv \<in> set (imports_map d). \<not> is_test_path (fst kv)"
  shows "(\<forall>kv \<in> set (class_files (fold registry_of_file fs d)). \<not> is_test_path (snd kv))
       \<and> (\<forall>kv \<in> set (class_definitions (fold registry_of_file fs d)).
             \<not> is_test_path (def_file (snd kv)))
       \<and> (\<forall>kv \<in> set (imports_map (fold registry_of_file fs d)). \<not> is_test_path (fst kv))"
  using assms
proof (induction fs arbitrary: d)
  case Nil
  then show ?case by simp
next
  case (Cons f fs)
  note step = registry_of_file_paths [OF Cons.prems, of f]
  show ?case
    using Cons.IH [of "registry_of_file f d"] step by simp
qed

lemma fold_registry_skips_tests:
  "fold registry_of_file (filter (\<lambda>f. \<not> is_test_path (path f)) fs) d = fold registry_of_file fs d"
  by (induction fs arbitrary: d) (simp_all add: registry_of_file_def)

lemma rglob_java_filter: "rglob_java (filter P tree) = filter P (rglob_java tree)"
  by (induction tree) (simp_all add: rglob_java_def)

text \<open>
  Claim C2, amended. \<^verbatim>\<open>DeepValidator.build_class_registry\<close> skips every path that contains
  \<^verbatim>\<open>/test/\<close> or \<^verbatim>\<open>/tests/\<close>: no entry of its class files, class definitions or imports
  map comes from such a path, and the registry is the one built from the tree without
  those files.
\<close>

theorem test_paths_skipped_by_deep_registry:
  "(\<forall>kv \<in> set (class_files (build_class_registry tree init_deep)). \<not> is_test_path (snd kv))
   \<and> (\<forall>kv \<in> set (class_definitions (build_class_registry tree init_deep)).
         \<not> is_test_path (def_file (snd kv)))
   \<and> (\<forall>kv \<in> set (imports_map (build_class_registry tree init_deep)). \<not> is_test_path (fst kv))
   \<and> build_class_registry (filter (\<lambda>f. \<not> is_test_path (path f)) tree) d
       = build_class_registry tree d"
proof -
  have "build_class_registry (filter (\<lambda>f. \<not> is_test_path (path f)) tree) d
       = build_class_registry tree d"
    by (simp add: build_class_registry_def rglob_java_filter fold_registry_skips_tests)
  then show ?thesis
    using fold_registry_of_file_paths [of init_deep "rglob_java tree"]
    by (simp add: build_class_registry_def init_deep_def)
qed

lemma deep_registry_tree_deep:
  "class_files (build_class_registry tree_deep init_deep)
     = [(''com.waqiti.x.A'', ''/r/services/a/target/classes/A.java'')]"
  by code_simp

lemma test_path_t: "is_test_path (path file_t)" by code_simp

theorem test_paths_skipped_by_deep_registry_witness:
  "is_test_path (path file_t) \<and> file_t \<in> set tree_deep
   \<and> class_files (build_class_registry tree_deep init_deep)
       = [(''com.waqiti.x.A'', ''/r/services/a/target/classes/A.java'')]
   \<and> \<not> is_test_path ''/r/services/a/target/classes/A.java''"
proof -
  have m: "(''com.waqiti.x.A'', ''/r/services/a/target/classes/A.java'')
             \<in> set (class_files (build_class_registry tree_deep init_deep))"
    by (simp add: deep_registry_tree_deep)
  have "\<not> is_test_path (snd (''com.waqiti.x.A'', ''/r/services/a/target/classes/A.java''))"
    using test_paths_skipped_by_deep_registry [of tree_deep, THEN conjunct1, THEN bspec, OF m] .
  then show ?thesis
    using test_path_t deep_registry_tree_deep by (simp add: tree_deep_def)
qed

subsection \<open>The reference validator reads every file\<close>

lemma endswith_java_t: "endswith ''/r/services/a/src/test/java/Q.java'' ''.java''" by code_simp

lemma current_fqn_q: "current_fqn text_q = Some ''com.waqiti.x.Q''" by code_simp

lemma lines_q: "readlines text_q = [line1_q, line2_q, line3_q]"
  by code_simp

lemma no_import_line1_q: "re_match rx_import (strip line1_q) = None" by code_simp
lemma import_line2_q: "re_match rx_import (strip line2_q) = Some match_zed" by code_simp
lemma plain_line2_q: "\<not> endswith (strip line2_q) ''*;''" by code_simp
lemma no_import_line3_q: "re_match rx_import (strip line3_q) = None" by code_simp
lemma group_zed: "group_str match_zed 1 = ''com.waqiti.x.Zed''" by code_simp
lemma internal_zed: "internal ''com.waqiti.x.Zed''" by code_simp

text \<open>
  Claim C2, as stated, fails. \<^verbatim>\<open>ReferenceValidator\<close> walks every \<^verbatim>\<open>*.java\<close> file: a file
  under a \<^verbatim>\<open>/test/\<close> directory is registered as a class and its broken import is
  reported.
\<close>

theorem test_file_scanned_by_reference_validator:
  "contains ''/test/'' (path file_t) \<and> file_t \<in> set (rglob_java [file_t])
   \<and> class_registry (scan_all_classes [file_t] init_validator)
       = [(''com.waqiti.x.Q'', ''/r/services/a/src/test/java/Q.java'')]
   \<and> broken_imports (report (run_phases (\<lambda>xs. xs) [file_t]))
       = [missing_import ''/r/services/a/src/test/java/Q.java'' 2 ''com.waqiti.x.Zed'']"
proof -
  have t: "contains ''/test/'' (path file_t)" by code_simp
  have g: "rglob_java [file_t] = [file_t]"
    by (simp add: rglob_java_def file_t_def endswith_java_t)
  have r: "class_registry (scan_all_classes [file_t] init_validator)
       = [(''com.waqiti.x.Q'', ''/r/services/a/src/test/java/Q.java'')]"
    unfolding scan_all_classes_def g
    by (simp add: class_registry_scan_file file_t_def current_fqn_q init_validator_def)
  have k: "\<not> has_key (class_registry (scan_all_classes [file_t] init_validator)) ''com.waqiti.x.Zed''"
    by (simp add: r has_key_def)
  have i: "imports_of_file (scan_all_classes [file_t] init_validator) file_t
       = [missing_import ''/r/services/a/src/test/java/Q.java'' 2 ''com.waqiti.x.Zed'']"
    using k
    by (simp add: imports_of_file_def file_t_def lines_q enumerate_eq_zip check_import_line_def
        no_import_line1_q import_line2_q plain_line2_q no_import_line3_q group_zed internal_zed
        upt_rec numeral_2_eq_2 del: One_nat_def)
  have b: "broken_imports (report (run_phases (\<lambda>xs. xs) [file_t]))
       = [missing_import ''/r/services/a/src/test/java/Q.java'' 2 ''com.waqiti.x.Zed'']"
    unfolding run_phases_eq g using i by simp
  show ?thesis
    using t g r b by simp
qed

end
